theory Spec2Isabelle
  imports Complex_Main "HOL-Library.Sublist" "HOL-Library.Product_Lexorder"
begin

section \<open>Text: characters, classes and the address pattern\<close>

text \<open>
  The program under study is \<^verbatim>\<open>tests/test_gpu_pcie.py\<close>: it lists the NVIDIA GPUs of a
  host, walks each one's PCIe ancestry, looks the root port up in the firmware slot table
  and classifies each link.  Python text is modelled as \<^typ>\<open>string\<close>; a \<^typ>\<open>char\<close>
  stands for a code point below 256.
\<close>

definition NL :: char where
  "NL = CHR 0x0A"

text \<open>\<^verbatim>\<open>[0-9a-fA-F]\<close>, \<^verbatim>\<open>[0-7]\<close>, \<^verbatim>\<open>\d\<close> and \<^verbatim>\<open>\s\<close> of Python's \<^verbatim>\<open>re\<close> on
  \<^verbatim>\<open>str\<close> patterns, for code points below 256.\<close>

definition is_hex :: "char \<Rightarrow> bool" where
  "is_hex c \<longleftrightarrow> c \<in> set ''0123456789abcdefABCDEF''"

definition is_oct :: "char \<Rightarrow> bool" where
  "is_oct c \<longleftrightarrow> c \<in> set ''01234567''"

definition is_digit :: "char \<Rightarrow> bool" where
  "is_digit c \<longleftrightarrow> c \<in> set ''0123456789''"

definition is_space :: "char \<Rightarrow> bool" where
  "is_space c \<longleftrightarrow>
     c \<in> {CHR 0x09, CHR 0x0A, CHR 0x0B, CHR 0x0C, CHR 0x0D,
          CHR 0x1C, CHR 0x1D, CHR 0x1E, CHR 0x1F, CHR 0x20, CHR 0x85, CHR 0xA0}"

text \<open>The twelve characters \<^verbatim>\<open>HHHH:HH:HH.F\<close>, the last one from the class \<open>fn\<close>.\<close>

definition bdf_shape :: "(char \<Rightarrow> bool) \<Rightarrow> string \<Rightarrow> bool" where
  "bdf_shape fn p \<longleftrightarrow>
     length p = 12 \<and>
     is_hex (p ! 0) \<and> is_hex (p ! 1) \<and> is_hex (p ! 2) \<and> is_hex (p ! 3) \<and>
     p ! 4 = CHR '':'' \<and> is_hex (p ! 5) \<and> is_hex (p ! 6) \<and>
     p ! 7 = CHR '':'' \<and> is_hex (p ! 8) \<and> is_hex (p ! 9) \<and>
     p ! 10 = CHR ''.'' \<and> fn (p ! 11)"

text \<open>
  \<^verbatim>\<open>re.match(r"^([0-9a-fA-F]{4}):([0-9a-fA-F]{2}):([0-9a-fA-F]{2})\.([0-7])$", s)\<close>:
  the four groups, or \<open>None\<close>.  Without \<^verbatim>\<open>re.M\<close> the anchor \<^verbatim>\<open>$\<close> holds at the end
  of the text and also just before a newline that ends the text.
\<close>

definition re_bdf :: "string \<Rightarrow> (string \<times> string \<times> string \<times> string) option" where
  "re_bdf s =
     (if bdf_shape is_oct (take 12 s) \<and> (length s = 12 \<or> (length s = 13 \<and> s ! 12 = NL))
      then Some (take 4 s, take 2 (drop 5 s), take 2 (drop 8 s), take 1 (drop 11 s))
      else None)"

subsection \<open>Numbers in text\<close>

definition hexval :: "char \<Rightarrow> nat option" where
  "hexval c =
     (if c \<in> set ''0123456789'' then Some (of_char c - 48)
      else if c \<in> set ''abcdef'' then Some (of_char c - 87)
      else if c \<in> set ''ABCDEF'' then Some (of_char c - 55)
      else None)"

text \<open>
  \<^verbatim>\<open>int(s, 16)\<close> on the texts this program passes to it, which are regex groups of
  hexadecimal digits: the value, or \<open>None\<close> (\<^verbatim>\<open>ValueError\<close>) for the empty text and for
  a text with any other character.
\<close>

fun int16_acc :: "nat \<Rightarrow> string \<Rightarrow> nat option" where
  "int16_acc acc [] = Some acc"
| "int16_acc acc (c # cs) =
     (case hexval c of None \<Rightarrow> None | Some d \<Rightarrow> int16_acc (16 * acc + d) cs)"

definition int16 :: "string \<Rightarrow> nat option" where
  "int16 s = (if s = [] then None else int16_acc 0 s)"

text \<open>\<^verbatim>\<open>int(s)\<close> on a text of decimal digits (the function digit).\<close>

fun int10_acc :: "nat \<Rightarrow> string \<Rightarrow> nat option" where
  "int10_acc acc [] = Some acc"
| "int10_acc acc (c # cs) =
     (if is_digit c then int10_acc (10 * acc + (of_char c - 48)) cs else None)"

definition int10 :: "string \<Rightarrow> nat option" where
  "int10 s = (if s = [] then None else int10_acc 0 s)"

text \<open>The format specifications \<^verbatim>\<open>:04x\<close> and \<^verbatim>\<open>:02x\<close>: lower-case hexadecimal, padded
  with zeros on the left up to the width; wider numbers are not cut.\<close>

definition hexdigit :: "nat \<Rightarrow> char" where
  "hexdigit d = ''0123456789abcdef'' ! d"

fun to_hex :: "nat \<Rightarrow> string" where
  "to_hex n = (if n < 16 then [hexdigit n] else to_hex (n div 16) @ [hexdigit (n mod 16)])"

declare to_hex.simps [simp del]

definition fmt_x :: "nat \<Rightarrow> nat \<Rightarrow> string" where
  "fmt_x w n = replicate (w - length (to_hex n)) (CHR ''0'') @ to_hex n"

fun to_dec :: "nat \<Rightarrow> string" where
  "to_dec n = (if n < 10 then [hexdigit n] else to_dec (n div 10) @ [hexdigit (n mod 10)])"

declare to_dec.simps [simp del]

section \<open>The firmware key of a root port\<close>

text \<open>
  \<^verbatim>\<open>dmi_key_from_bdf\<close>: the empty text when the address does not match, else
  \<^verbatim>\<open>f"{int(bus,16):04x}:{int(dev,16):02x}:{0:02x}.{int(fn,16)}"\<close>.  A group that is not a
  number would raise; the result is then \<open>Inl ValueError\<close>.
\<close>

datatype py_error = ValueError | AttributeError | Skipped string | AssertionError "string list"

definition dmi_key_from_bdf :: "string \<Rightarrow> py_error + string" where
  "dmi_key_from_bdf bdf =
     (case re_bdf bdf of
        None \<Rightarrow> Inr ''''
      | Some (dm, bus, dev, fn) \<Rightarrow>
          (case (int16 bus, int16 dev, int16 fn) of
             (Some b, Some d, Some f) \<Rightarrow>
               Inr (fmt_x 4 b @ '':'' @ fmt_x 2 d @ '':'' @ fmt_x 2 0 @ ''.'' @ to_dec f)
           | _ \<Rightarrow> Inl ValueError))"

text \<open>
  The numeric fields (domain, bus, device, function) of an address in the canonical form
  \<^verbatim>\<open>DDDD:BB:DD.F\<close>: the pattern of \<^verbatim>\<open>dmi_key_from_bdf\<close>, each group read by
  \<^verbatim>\<open>int(_, 16)\<close>.  The properties below read an address and a key through it.
\<close>

definition parse_address :: "string \<Rightarrow> (nat \<times> nat \<times> nat \<times> nat) option" where
  "parse_address s =
     (case re_bdf s of
        None \<Rightarrow> None
      | Some (dm, bus, dev, fn) \<Rightarrow>
          (case (int16 dm, int16 bus, int16 dev, int16 fn) of
             (Some a, Some b, Some d, Some f) \<Rightarrow> Some (a, b, d, f)
           | _ \<Rightarrow> None))"

definition key_text :: "nat \<Rightarrow> nat \<Rightarrow> nat \<Rightarrow> string" where
  "key_text b d f = fmt_x 4 b @ '':'' @ fmt_x 2 d @ '':'' @ fmt_x 2 0 @ ''.'' @ to_dec f"

subsection \<open>Digits and formats\<close>

lemma hexdigit_table:
  "\<forall>d \<in> set [0..<16]. hexval (hexdigit d) = Some d \<and> is_hex (hexdigit d)"
  by code_simp

lemma hexval_hexdigit: "d < 16 \<Longrightarrow> hexval (hexdigit d) = Some d"
  using hexdigit_table by simp

lemma is_hex_hexdigit: "d < 16 \<Longrightarrow> is_hex (hexdigit d)"
  using hexdigit_table by simp

lemma octdigit_table: "\<forall>d \<in> set [0..<8]. is_oct (hexdigit d)"
  by code_simp

lemma is_oct_hexdigit: "d < 8 \<Longrightarrow> is_oct (hexdigit d)"
  using octdigit_table by simp

lemma is_hex_hexval: "is_hex c \<Longrightarrow> \<exists>d<16. hexval c = Some d"
  unfolding is_hex_def hexval_def by auto

lemma oct_table:
  "\<forall>c \<in> set ''01234567''. (case hexval c of Some d \<Rightarrow> d < 8 | None \<Rightarrow> False)"
  by code_simp

lemma is_oct_hexval: "is_oct c \<Longrightarrow> \<exists>d<8. hexval c = Some d"
  using oct_table unfolding is_oct_def by (fastforce split: option.splits)

lemma is_oct_is_hex: "is_oct c \<Longrightarrow> is_hex c"
  unfolding is_oct_def is_hex_def by auto

lemma hexdigit_0: "hexdigit 0 = CHR ''0''"
  by (simp add: hexdigit_def)

lemma replicate_2: "replicate 2 x = [x, x]"
  by (simp add: numeral_2_eq_2)

lemma replicate_3: "replicate 3 x = [x, x, x]"
  by (simp add: numeral_3_eq_3)

lemma to_hex_small: "n < 16 \<Longrightarrow> to_hex n = [hexdigit n]"
  by (simp add: to_hex.simps [of n])

lemma to_hex_byte:
  "16 \<le> n \<Longrightarrow> n < 256 \<Longrightarrow> to_hex n = [hexdigit (n div 16), hexdigit (n mod 16)]"
  by (simp add: to_hex.simps [of n] to_hex_small)

lemma fmt_x_two: "n < 256 \<Longrightarrow> fmt_x 2 n = [hexdigit (n div 16), hexdigit (n mod 16)]"
  by (cases "n < 16") (simp_all add: fmt_x_def to_hex_small to_hex_byte hexdigit_0)

lemma fmt_x_four:
  "n < 256 \<Longrightarrow> fmt_x 4 n = [CHR ''0'', CHR ''0'', hexdigit (n div 16), hexdigit (n mod 16)]"
  by (cases "n < 16")
     (simp_all add: fmt_x_def to_hex_small to_hex_byte hexdigit_0 replicate_2 replicate_3)

lemma to_dec_one: "n < 10 \<Longrightarrow> to_dec n = [hexdigit n]"
  by (simp add: to_dec.simps [of n])

lemma int16_one: "hexval a = Some x \<Longrightarrow> int16 [a] = Some x"
  by (simp add: int16_def)

lemma int16_two:
  "hexval a = Some x \<Longrightarrow> hexval b = Some y \<Longrightarrow> int16 [a, b] = Some (16 * x + y)"
  by (simp add: int16_def)

lemma int16_four:
  "hexval a = Some x \<Longrightarrow> hexval b = Some y \<Longrightarrow> hexval c = Some z \<Longrightarrow> hexval d = Some w \<Longrightarrow>
   int16 [a, b, c, d] = Some (16 * (16 * (16 * x + y) + z) + w)"
  by (simp add: int16_def)

lemma hexval_zero: "hexval (CHR ''0'') = Some 0"
  by (simp add: hexval_def)

lemma is_hex_zero: "is_hex (CHR ''0'')"
  by (simp add: is_hex_def)

lemma take1_drop: "n < length s \<Longrightarrow> take (Suc 0) (drop n s) = [s ! n]"
  by (simp add: take_Suc_conv_app_nth)

lemma take2_drop: "Suc n < length s \<Longrightarrow> take 2 (drop n s) = [s ! n, s ! Suc n]"
  by (simp add: numeral_2_eq_2 take_Suc_conv_app_nth)

lemma int16_byte:
  assumes "is_hex x" "is_hex y"
  shows "\<exists>n<256. int16 [x, y] = Some n"
proof -
  obtain a b where "a < 16" "hexval x = Some a" "b < 16" "hexval y = Some b"
    using assms is_hex_hexval by blast
  then have "int16 [x, y] = Some (16 * a + b)" "16 * a + b < 256"
    by (simp_all add: int16_two)
  then show ?thesis by blast
qed

lemma int16_oct:
  assumes "is_oct w"
  shows "\<exists>n<8. int16 [w] = Some n"
  using is_oct_hexval [OF assms] by (auto simp: int16_one)

subsection \<open>What the pattern's groups are\<close>

lemma re_bdf_groups:
  assumes "re_bdf s = Some (gd, gb, gv, gf)"
  shows "gb = [s ! 5, s ! 6] \<and> is_hex (s ! 5) \<and> is_hex (s ! 6) \<and>
         gv = [s ! 8, s ! 9] \<and> is_hex (s ! 8) \<and> is_hex (s ! 9) \<and>
         gf = [s ! 11] \<and> is_oct (s ! 11)"
proof -
  from assms have sh: "bdf_shape is_oct (take 12 s)" and len: "12 \<le> length s"
    and g: "gb = take 2 (drop 5 s)" "gv = take 2 (drop 8 s)" "gf = take 1 (drop 11 s)"
    by (auto simp: re_bdf_def split: if_splits)
  have "gb = [s ! 5, s ! 6]" "gv = [s ! 8, s ! 9]" "gf = [s ! 11]"
    using len g by (simp_all add: take2_drop take1_drop)
  moreover have "is_hex (s ! 5)" "is_hex (s ! 6)" "is_hex (s ! 8)" "is_hex (s ! 9)"
    "is_oct (s ! 11)"
    using sh by (simp_all add: bdf_shape_def)
  ultimately show ?thesis by simp
qed

text \<open>No group of a matching address fails to convert: the \<^verbatim>\<open>ValueError\<close> branch of the
  model is never taken.\<close>

lemma re_bdf_numbers:
  assumes "re_bdf s = Some (gd, gb, gv, gf)"
  shows "\<exists>b d f. b < 256 \<and> d < 256 \<and> f < 8 \<and>
           int16 gb = Some b \<and> int16 gv = Some d \<and> int16 gf = Some f"
proof -
  note g = re_bdf_groups [OF assms]
  obtain b where b: "b < 256" "int16 gb = Some b"
    using g int16_byte [of "s ! 5" "s ! 6"] by auto
  obtain d where d: "d < 256" "int16 gv = Some d"
    using g int16_byte [of "s ! 8" "s ! 9"] by auto
  obtain f where f: "f < 8" "int16 gf = Some f"
    using g int16_oct [of "s ! 11"] by auto
  from b d f show ?thesis by blast
qed

lemma dmi_key_of_match:
  assumes "re_bdf s = Some (gd, gb, gv, gf)"
  shows "\<exists>b d f. b < 256 \<and> d < 256 \<and> f < 8 \<and>
           int16 gb = Some b \<and> int16 gv = Some d \<and> int16 gf = Some f \<and>
           dmi_key_from_bdf s = Inr (key_text b d f)"
proof -
  obtain b d f where n: "b < 256" "d < 256" "f < 8"
      "int16 gb = Some b" "int16 gv = Some d" "int16 gf = Some f"
    using re_bdf_numbers [OF assms] by blast
  have "dmi_key_from_bdf s = Inr (key_text b d f)"
    by (simp add: dmi_key_from_bdf_def assms n key_text_def)
  with n show ?thesis by blast
qed

lemma dmi_key_of_parsed:
  assumes "parse_address s = Some (dm, b, d, f)"
  shows "b < 256 \<and> d < 256 \<and> f < 8 \<and> dmi_key_from_bdf s = Inr (key_text b d f)"
proof -
  from assms obtain gd gb gv gf where re: "re_bdf s = Some (gd, gb, gv, gf)"
    and i: "int16 gb = Some b" "int16 gv = Some d" "int16 gf = Some f"
    by (auto simp: parse_address_def split: option.splits)
  from dmi_key_of_match [OF re] i show ?thesis by auto
qed

subsection \<open>The key, read back as an address\<close>

lemma key_text_chars:
  assumes "b < 256" "d < 256" "f < 8"
  shows "key_text b d f =
     [CHR ''0'', CHR ''0'', hexdigit (b div 16), hexdigit (b mod 16), CHR '':'',
      hexdigit (d div 16), hexdigit (d mod 16), CHR '':'', CHR ''0'', CHR ''0'', CHR ''.'',
      hexdigit f]"
  using assms by (simp add: key_text_def fmt_x_two fmt_x_four to_dec_one hexdigit_0)

lemma re_bdf_key_text:
  assumes "b < 256" "d < 256" "f < 8"
  shows "re_bdf (key_text b d f) =
     Some ([CHR ''0'', CHR ''0'', hexdigit (b div 16), hexdigit (b mod 16)],
           [hexdigit (d div 16), hexdigit (d mod 16)], [CHR ''0'', CHR ''0''], [hexdigit f])"
proof -
  have h: "b div 16 < 16" "b mod 16 < 16" "d div 16 < 16" "d mod 16 < 16"
    using assms by auto
  show ?thesis
    unfolding key_text_chars [OF assms] re_bdf_def bdf_shape_def
    using h assms by (simp add: is_hex_hexdigit is_oct_hexdigit is_hex_zero)
qed

lemma parse_key_text:
  assumes "b < 256" "d < 256" "f < 8"
  shows "parse_address (key_text b d f) = Some (b, d, 0, f)"
proof -
  have h: "b div 16 < 16" "b mod 16 < 16" "d div 16 < 16" "d mod 16 < 16" "f < 16"
    using assms by auto
  have i1: "int16 [CHR ''0'', CHR ''0'', hexdigit (b div 16), hexdigit (b mod 16)] = Some b"
    using int16_four [OF hexval_zero hexval_zero hexval_hexdigit [OF h(1)]
        hexval_hexdigit [OF h(2)]]
    by simp
  have i2: "int16 [hexdigit (d div 16), hexdigit (d mod 16)] = Some d"
    using int16_two [OF hexval_hexdigit [OF h(3)] hexval_hexdigit [OF h(4)]] by simp
  have i3: "int16 [CHR ''0'', CHR ''0''] = Some 0"
    using int16_two [OF hexval_zero hexval_zero] by simp
  have i4: "int16 [hexdigit f] = Some f"
    using int16_one [OF hexval_hexdigit [OF h(5)]] .
  show ?thesis
    by (simp add: parse_address_def re_bdf_key_text [OF assms] i1 i2 i3 i4)
qed

subsection \<open>Claims on the firmware key\<close>

lemma key_text_inj:
  assumes "b < 256" "d < 256" "f < 8" "b' < 256" "d' < 256" "f' < 8"
    and e: "key_text b d f = key_text b' d' f'"
  shows "b = b' \<and> d = d' \<and> f = f'"
proof -
  have "parse_address (key_text b d f) = Some (b, d, 0, f)"
    using assms(1-3) by (rule parse_key_text)
  moreover have "parse_address (key_text b' d' f') = Some (b', d', 0, f')"
    using assms(4-6) by (rule parse_key_text)
  ultimately have "Some (b, d, 0 :: nat, f) = Some (b', d', 0, f')"
    by (simp only: e)
  then show ?thesis by simp
qed

text \<open>
  C1 (as amended).  For every address in the canonical form, \<^verbatim>\<open>dmi_key_from_bdf\<close> returns a
  key that is itself in the canonical form; read as an address, the key's domain field is
  the address's bus, its bus field is the address's device, its device field is zero and
  its function field is the address's function.  The address's domain is dropped.  Two
  addresses have the same key exactly when they agree on bus, device and function: the
  device is kept, so two root ports of one bus that differ in their device have two keys.
\<close>

theorem dmi_key_from_bdf_fields:
  assumes "parse_address s = Some (dm, b, d, f)"
    and "parse_address s' = Some (dm', b', d', f')"
  shows "(\<exists>key. dmi_key_from_bdf s = Inr key \<and> parse_address key = Some (b, d, 0, f)) \<and>
         (dmi_key_from_bdf s = dmi_key_from_bdf s' \<longleftrightarrow> b = b' \<and> d = d' \<and> f = f')"
proof (rule conjI)
  note k = dmi_key_of_parsed [OF assms(1)] and k' = dmi_key_of_parsed [OF assms(2)]
  have key: "dmi_key_from_bdf s = Inr (key_text b d f)"
    and key': "dmi_key_from_bdf s' = Inr (key_text b' d' f')"
    using k k' by blast+
  have p: "parse_address (key_text b d f) = Some (b, d, 0, f)"
    using k by (intro parse_key_text) blast+
  show "\<exists>key. dmi_key_from_bdf s = Inr key \<and> parse_address key = Some (b, d, 0, f)"
    using key p by blast
  show "dmi_key_from_bdf s = dmi_key_from_bdf s' \<longleftrightarrow> b = b' \<and> d = d' \<and> f = f'"
  proof
    assume "dmi_key_from_bdf s = dmi_key_from_bdf s'"
    then have "key_text b d f = key_text b' d' f'"
      by (simp only: key key' sum.inject)
    then show "b = b' \<and> d = d' \<and> f = f'"
      using k k' by (intro key_text_inj) blast+
  next
    assume "b = b' \<and> d = d' \<and> f = f'"
    then show "dmi_key_from_bdf s = dmi_key_from_bdf s'"
      by (simp only: key key')
  qed
qed

theorem dmi_key_from_bdf_fields_witness:
  "parse_address ''0000:16:01.0'' = Some (0, 22, 1, 0) \<and>
   parse_address ''0001:16:01.0'' = Some (1, 22, 1, 0) \<and>
   (\<exists>key. dmi_key_from_bdf ''0000:16:01.0'' = Inr key \<and>
          parse_address key = Some (22, 1, 0, 0)) \<and>
   dmi_key_from_bdf ''0000:16:01.0'' = dmi_key_from_bdf ''0001:16:01.0''"
proof -
  have h1: "parse_address ''0000:16:01.0'' = Some (0, 22, 1, 0)" by code_simp
  have h2: "parse_address ''0001:16:01.0'' = Some (1, 22, 1, 0)" by code_simp
  note t = dmi_key_from_bdf_fields [OF h1 h2]
  have a: "\<exists>key. dmi_key_from_bdf ''0000:16:01.0'' = Inr key \<and>
          parse_address key = Some (22, 1, 0, 0)"
    using t by (rule conjunct1)
  have b: "dmi_key_from_bdf ''0000:16:01.0'' = dmi_key_from_bdf ''0001:16:01.0''"
    using t [THEN conjunct2] by blast
  show ?thesis
    using h1 h2 a b by (intro conjI)
qed

text \<open>
  C1 as the specification words it fails: the root ports \<^verbatim>\<open>0000:16:00.0\<close> and
  \<^verbatim>\<open>0000:16:01.0\<close> are on the same bus and differ only in their device, and they have
  different keys; the bus field of the second key is 1, the address's device, and not 22,
  the address's bus.
\<close>

theorem dmi_key_same_bus_counterexample:
  "parse_address ''0000:16:00.0'' = Some (0, 22, 0, 0) \<and>
   parse_address ''0000:16:01.0'' = Some (0, 22, 1, 0) \<and>
   dmi_key_from_bdf ''0000:16:00.0'' \<noteq> dmi_key_from_bdf ''0000:16:01.0'' \<and>
   dmi_key_from_bdf ''0000:16:01.0'' = Inr ''0016:01:00.0'' \<and>
   parse_address ''0016:01:00.0'' = Some (22, 1, 0, 0)"
  by code_simp


text \<open>Every other text that is not in the canonical form gets the empty key.\<close>

lemma dmi_key_from_bdf_rejects:
  assumes "\<not> (length s = 12 \<and> bdf_shape is_oct s)"
    and "\<not> (length s = 13 \<and> s ! 12 = NL \<and> bdf_shape is_oct (butlast s))"
  shows "dmi_key_from_bdf s = Inr []"
proof -
  have "re_bdf s = None"
  proof (rule ccontr)
    assume "re_bdf s \<noteq> None"
    then have sh: "bdf_shape is_oct (take 12 s)"
      and len: "length s = 12 \<or> (length s = 13 \<and> s ! 12 = NL)"
      by (auto simp: re_bdf_def split: if_splits)
    from len show False
    proof
      assume "length s = 12"
      with sh assms(1) show False by simp
    next
      assume l: "length s = 13 \<and> s ! 12 = NL"
      then have "take 12 s = butlast s" by (simp add: butlast_conv_take)
      with sh l assms(2) show False by simp
    qed
  qed
  then show ?thesis by (simp add: dmi_key_from_bdf_def)
qed

section \<open>Location and slot heuristics\<close>

definition riser_side :: "string \<Rightarrow> string" where
  "riser_side grp =
     (if grp \<in> {''PCIE_3'', ''PCIE_4''} then ''Front''
      else if grp \<in> {''PCIE_1'', ''PCIE_2''} then ''Rear''
      else ''ERROR'')"

definition riser_lr :: "string \<Rightarrow> string" where
  "riser_lr grp =
     (case map_of [(''PCIE_1'', ''Right''), (''PCIE_2'', ''Left''),
                   (''PCIE_3'', ''Right''), (''PCIE_4'', ''Left'')] grp of
        Some v \<Rightarrow> v
      | None \<Rightarrow> ''ERROR'')"

text \<open>
  \<^verbatim>\<open>re.match(r"^(PCIE_\d+)_.*", desig)\<close>: the digits are taken greedily and must be
  followed by an underscore; giving digits back cannot help, since the character after a
  shorter run is a digit.  The rest \<^verbatim>\<open>.*\<close> always matches.
\<close>

definition riser_group_from_desig :: "string \<Rightarrow> string" where
  "riser_group_from_desig desig =
     (if prefix ''PCIE_'' desig then
        (let r = drop 5 desig; ds = takeWhile is_digit r in
         (case dropWhile is_digit r of
            [] \<Rightarrow> []
          | c # _ \<Rightarrow> if ds \<noteq> [] \<and> c = CHR ''_'' then ''PCIE_'' @ ds else []))
      else [])"

definition inner_slot_from_dev_with_group :: "string \<Rightarrow> string \<Rightarrow> string" where
  "inner_slot_from_dev_with_group grp dev_hex =
     (let mapping =
        [(''PCIE_3'', [(''00'', ''Bottom''), (''01'', ''Top'')]),
         (''PCIE_2'', [(''00'', ''Bottom''), (''01'', ''Top'')]),
         (''PCIE_1'', [(''00'', ''Top''), (''01'', ''Bottom'')]),
         (''PCIE_4'', [(''00'', ''Top''), (''01'', ''Bottom'')])]
      in (case map_of (case map_of mapping grp of Some m \<Rightarrow> m | None \<Rightarrow> []) dev_hex of
            Some v \<Rightarrow> v
          | None \<Rightarrow> ''ERROR''))"

definition gpu_label_from_key :: "string \<Rightarrow> string" where
  "gpu_label_from_key key =
     (case map_of
        [(''PCIE_1_PCIE_1'', ''GPU1''), (''PCIE_1_PCIE_2'', ''GPU2''),
         (''PCIE_2_PCIE_1'', ''GPU5''), (''PCIE_2_PCIE_2'', ''GPU6''),
         (''PCIE_3_PCIE_1'', ''GPU3''), (''PCIE_3_PCIE_2'', ''GPU4''),
         (''PCIE_4_PCIE_1'', ''GPU7''), (''PCIE_4_PCIE_2'', ''GPU8'')] key of
        Some v \<Rightarrow> v
      | None \<Rightarrow> ''ERROR'')"

text \<open>The key the test builds for the label table:
  \<^verbatim>\<open>f"{group}_PCIE_{'1' if inner=='Top' else '2'}"\<close>.\<close>

definition slot_key :: "string \<Rightarrow> string \<Rightarrow> string" where
  "slot_key grp inner = grp @ ''_PCIE_'' @ (if inner = ''Top'' then ''1'' else ''2'')"

text \<open>
  C2 (as amended).  The slot resolver on the named vector: the riser group of
  \<^verbatim>\<open>PCIE_3_SLOT2\<close> is \<^verbatim>\<open>PCIE_3\<close>; its side is Front and its left/right value Right; with the
  bridge device \<^verbatim>\<open>00\<close> its inner position is Bottom; and the label of group \<^verbatim>\<open>PCIE_3\<close>
  is GPU3 for the inner position Top and GPU4 for the inner position Bottom.
\<close>

theorem slot_resolver_vector:
  "riser_group_from_desig ''PCIE_3_SLOT2'' = ''PCIE_3'' \<and>
   riser_side ''PCIE_3'' = ''Front'' \<and>
   riser_lr ''PCIE_3'' = ''Right'' \<and>
   inner_slot_from_dev_with_group ''PCIE_3'' ''00'' = ''Bottom'' \<and>
   gpu_label_from_key (slot_key ''PCIE_3'' ''Top'') = ''GPU3'' \<and>
   gpu_label_from_key (slot_key ''PCIE_3'' ''Bottom'') = ''GPU4''"
  by code_simp

text \<open>C2 as the specification words it fails in its last part: the label of group
  \<^verbatim>\<open>PCIE_3\<close> with the inner position Top is not GPU4.\<close>

theorem gpu_label_top_counterexample:
  "gpu_label_from_key (slot_key ''PCIE_3'' ''Top'') \<noteq> ''GPU4''"
  by code_simp

section \<open>Link classification\<close>

text \<open>
  \<^verbatim>\<open>link_status_tag\<close> converts its texts with Python's builtins \<^verbatim>\<open>int\<close> and \<^verbatim>\<open>float\<close>
  and compares the results.  The builtins are not code of this program, and floating point
  has no model here, so they are parameters: a conversion gives a value or fails
  (\<open>None\<close>: the builtin raises \<^verbatim>\<open>ValueError\<close>), and \<open>float_less\<close> is \<^verbatim>\<open><\<close> on floats.
  Whatever is proved below holds for every choice of the three.
\<close>

record 'f builtins =
  py_int :: "string \<Rightarrow> int option"
  py_float :: "string \<Rightarrow> 'f option"
  float_less :: "'f \<Rightarrow> 'f \<Rightarrow> bool"

text \<open>
  The two \<^verbatim>\<open>try\<close> bodies: the value of the condition
  \<^verbatim>\<open>cap_w and sta_w and int(sta_w) < int(cap_w)\<close>, evaluated left to right with
  short-circuit, or the exception a conversion raises.
\<close>

definition lane_condition :: "'f builtins \<Rightarrow> string \<Rightarrow> string \<Rightarrow> py_error + bool" where
  "lane_condition B cap_w sta_w =
     (if cap_w = [] then Inr False
      else if sta_w = [] then Inr False
      else (case py_int B sta_w of
              None \<Rightarrow> Inl ValueError
            | Some s \<Rightarrow>
                (case py_int B cap_w of
                   None \<Rightarrow> Inl ValueError
                 | Some c \<Rightarrow> Inr (s < c))))"

definition idle_condition :: "'f builtins \<Rightarrow> string \<Rightarrow> string \<Rightarrow> py_error + bool" where
  "idle_condition B cap_s sta_s =
     (if cap_s = [] then Inr False
      else if sta_s = [] then Inr False
      else (case py_float B sta_s of
              None \<Rightarrow> Inl ValueError
            | Some s \<Rightarrow>
                (case py_float B cap_s of
                   None \<Rightarrow> Inl ValueError
                 | Some c \<Rightarrow> Inr (float_less B s c))))"

text \<open>\<^verbatim>\<open>try: if <condition>: flag = True  except Exception: pass\<close>, the flag being
  \<^verbatim>\<open>False\<close> before.\<close>

definition flag_after :: "py_error + bool \<Rightarrow> bool" where
  "flag_after r = (case r of Inl _ \<Rightarrow> False | Inr v \<Rightarrow> v)"

definition link_status_tag ::
  "'f builtins \<Rightarrow> string \<Rightarrow> string \<Rightarrow> string \<Rightarrow> string \<Rightarrow> string" where
  "link_status_tag B cap_s cap_w sta_s sta_w =
     (let lane_down = flag_after (lane_condition B cap_w sta_w);
          idle = flag_after (idle_condition B cap_s sta_s)
      in if lane_down then ''DOWNGRADED'' else if idle then ''IDLE'' else ''OK'')"

lemma lane_down_iff:
  "flag_after (lane_condition B cap_w sta_w) \<longleftrightarrow>
     cap_w \<noteq> [] \<and> sta_w \<noteq> [] \<and>
     (\<exists>s c. py_int B sta_w = Some s \<and> py_int B cap_w = Some c \<and> s < c)"
  by (auto simp: flag_after_def lane_condition_def split: option.splits)

lemma idle_iff:
  "flag_after (idle_condition B cap_s sta_s) \<longleftrightarrow>
     cap_s \<noteq> [] \<and> sta_s \<noteq> [] \<and>
     (\<exists>s c. py_float B sta_s = Some s \<and> py_float B cap_s = Some c \<and> float_less B s c)"
  by (auto simp: flag_after_def idle_condition_def split: option.splits)

lemma tags_distinct:
  "''DOWNGRADED'' \<noteq> ''IDLE''" "''DOWNGRADED'' \<noteq> ''OK''" "''IDLE'' \<noteq> ''OK''"
  by simp_all

text \<open>
  C3.  For every four fields, \<^verbatim>\<open>link_status_tag\<close> returns DOWNGRADED exactly when both
  widths are present (not empty) and convert and the negotiated width is strictly below the
  capable one, whatever the speeds are; otherwise it returns IDLE exactly when both speeds
  are present and convert and the negotiated speed is strictly below the capable one;
  otherwise it returns OK.  A field that is missing or does not convert never leads to
  DOWNGRADED or IDLE.
\<close>

theorem link_status_tag_verdict:
  fixes B :: "'f builtins"
  defines "width_down cap_w sta_w \<equiv>
     cap_w \<noteq> [] \<and> sta_w \<noteq> [] \<and>
     (\<exists>s c. py_int B sta_w = Some s \<and> py_int B cap_w = Some c \<and> s < c)"
  defines "speed_down cap_s sta_s \<equiv>
     cap_s \<noteq> [] \<and> sta_s \<noteq> [] \<and>
     (\<exists>s c. py_float B sta_s = Some s \<and> py_float B cap_s = Some c \<and> float_less B s c)"
  shows "(link_status_tag B cap_s cap_w sta_s sta_w = ''DOWNGRADED'' \<longleftrightarrow>
            width_down cap_w sta_w) \<and>
         (link_status_tag B cap_s cap_w sta_s sta_w = ''IDLE'' \<longleftrightarrow>
            \<not> width_down cap_w sta_w \<and> speed_down cap_s sta_s) \<and>
         (link_status_tag B cap_s cap_w sta_s sta_w = ''OK'' \<longleftrightarrow>
            \<not> width_down cap_w sta_w \<and> \<not> speed_down cap_s sta_s)"
proof -
  have w: "flag_after (lane_condition B cap_w sta_w) \<longleftrightarrow> width_down cap_w sta_w"
    unfolding width_down_def by (rule lane_down_iff)
  have s: "flag_after (idle_condition B cap_s sta_s) \<longleftrightarrow> speed_down cap_s sta_s"
    unfolding speed_down_def by (rule idle_iff)
  show ?thesis
    unfolding link_status_tag_def Let_def w s
    by (cases "width_down cap_w sta_w"; cases "speed_down cap_s sta_s") simp_all
qed


subsection \<open>An instance of the builtins, for evaluation\<close>

text \<open>
  The conversions on the numerals \<^verbatim>\<open>lspci\<close> prints: \<open>dec_int\<close> reads a run of decimal
  digits, \<open>dec_float\<close> a run of digits or digits, a point and digits, as the exact
  rational; every other text fails.  Python's builtins accept more texts than these two;
  only examples are evaluated with this instance.
\<close>

definition dec_int :: "string \<Rightarrow> int option" where
  "dec_int s = map_option int (int10 s)"

definition dec_float :: "string \<Rightarrow> rat option" where
  "dec_float s =
     (let ip = takeWhile is_digit s in
      (case (int10 ip, dropWhile is_digit s) of
         (Some i, []) \<Rightarrow> Some (of_nat i)
       | (Some i, c # fp) \<Rightarrow>
           (if c = CHR ''.'' then
              (case int10 fp of
                 Some f \<Rightarrow> Some (of_nat i + of_nat f / 10 ^ length fp)
               | None \<Rightarrow> None)
            else None)
       | (None, _) \<Rightarrow> None))"

definition decimal_builtins :: "rat builtins" where
  "decimal_builtins = \<lparr>py_int = dec_int, py_float = dec_float, float_less = (<)\<rparr>"

lemma link_status_tag_examples:
  "link_status_tag decimal_builtins ''16.0'' ''16'' ''8.0'' ''8'' = ''DOWNGRADED''"
  "link_status_tag decimal_builtins ''16.0'' ''16'' ''8.0'' ''16'' = ''IDLE''"
  "link_status_tag decimal_builtins ''16.0'' ''16'' ''16.0'' ''16'' = ''OK''"
  "link_status_tag decimal_builtins ''16.0'' ''16'' ''16.0'' [] = ''OK''"
  "link_status_tag decimal_builtins ''16.0'' ''16'' ''1.2.3'' ''x8'' = ''OK''"
  by code_simp+

section \<open>The firmware slot table\<close>

subsection \<open>Text operations\<close>

text \<open>\<^verbatim>\<open>str.strip()\<close>: white space off both ends.\<close>

definition strip :: "string \<Rightarrow> string" where
  "strip s = rev (dropWhile is_space (rev (dropWhile is_space s)))"

text \<open>
  \<^verbatim>\<open>re.split(r"\n\s*\n", out)\<close>.  A separator starts at a newline; \<^verbatim>\<open>\s*\<close> is greedy and
  gives characters back until a newline follows, so the separator runs up to the last
  newline of the white space after its first newline (\<open>last_nl\<close> is the length of that
  stretch, 0 when the white space holds no newline and nothing matches here).  The pieces
  between the separators are the blocks, empty ones included.
\<close>

definition last_nl :: "string \<Rightarrow> nat" where
  "last_nl w = length (dropWhile (\<lambda>c. c \<noteq> NL) (rev w))"

fun split_blocks :: "string \<Rightarrow> string \<Rightarrow> string list" where
  "split_blocks cur [] = [rev cur]"
| "split_blocks cur (c # cs) =
     (if c = NL \<and> 0 < last_nl (takeWhile is_space cs)
      then rev cur # split_blocks [] (drop (last_nl (takeWhile is_space cs)) cs)
      else split_blocks (c # cur) cs)"

text \<open>
  \<^verbatim>\<open>re.search\<close> of a pattern that starts with \<^verbatim>\<open>^\<close> under \<^verbatim>\<open>re.M\<close>: the match is tried
  at every start of a line, from the left, and the first success is the result.  \<open>bol\<close>
  says that the text at hand starts a line.
\<close>

fun search_bol :: "(string \<Rightarrow> 'a option) \<Rightarrow> bool \<Rightarrow> string \<Rightarrow> 'a option" where
  "search_bol m bol [] = (if bol then m [] else None)"
| "search_bol m bol (c # cs) =
     (case (if bol then m (c # cs) else None) of
        Some g \<Rightarrow> Some g
      | None \<Rightarrow> search_bol m (c = NL) cs)"

text \<open>
  \<^verbatim>\<open>\s*<name>\<close> followed by the rest of a pattern: the name starts with a character that
  is not white space, so \<^verbatim>\<open>\s*\<close> has to take the whole run of white space (newlines too).
\<close>

definition field_at :: "string \<Rightarrow> (string \<Rightarrow> 'a option) \<Rightarrow> string \<Rightarrow> 'a option" where
  "field_at name rest t =
     (let t1 = dropWhile is_space t
      in if prefix name t1 then rest (drop (length name) t1) else None)"

text \<open>
  \<^verbatim>\<open>\s*(.+)$\<close> under \<^verbatim>\<open>re.M\<close>, the group.  When a character that is not white space
  follows the white space, the group runs from it to the end of its line.  When the text
  ends in the white space, \<^verbatim>\<open>\s*\<close> gives characters back until \<^verbatim>\<open>.+\<close> finds one that is
  not a newline: the last such character of the white space is the group.
\<close>

definition capture_rest :: "string \<Rightarrow> string option" where
  "capture_rest t =
     (case dropWhile is_space t of
        c # cs \<Rightarrow> Some (takeWhile (\<lambda>x. x \<noteq> NL) (c # cs))
      | [] \<Rightarrow>
          (case dropWhile (\<lambda>x. x = NL) (rev (takeWhile is_space t)) of
             [] \<Rightarrow> None
           | c # _ \<Rightarrow> Some [c]))"

text \<open>
  \<^verbatim>\<open>\s*([0-9a-fA-F]{4}:[0-9a-fA-F]{2}:[0-9a-fA-F]{2}\.[0-9a-fA-F])$\<close> under
  \<^verbatim>\<open>re.M\<close>, the group: the address has to end its line.
\<close>

definition capture_addr :: "string \<Rightarrow> string option" where
  "capture_addr t =
     (let r = dropWhile is_space t
      in if bdf_shape is_hex (take 12 r) \<and> (length r = 12 \<or> r ! 12 = NL)
         then Some (take 12 r) else None)"

definition search_designation :: "string \<Rightarrow> string option" where
  "search_designation block = search_bol (field_at ''Designation:'' capture_rest) True block"

definition search_type :: "string \<Rightarrow> string option" where
  "search_type block = search_bol (field_at ''Type:'' capture_rest) True block"

definition search_bus_address :: "string \<Rightarrow> string option" where
  "search_bus_address block = search_bol (field_at ''Bus Address:'' capture_addr) True block"

subsection \<open>The catalog builder\<close>

record dmi_state =
  current_designation :: string
  current_type :: string
  DMI_DESIG :: "string \<rightharpoonup> string"
  DMI_TYPE :: "string \<rightharpoonup> string"

definition dmi_init :: dmi_state where
  "dmi_init = \<lparr>current_designation = [], current_type = [],
               DMI_DESIG = Map.empty, DMI_TYPE = Map.empty\<rparr>"

text \<open>One turn of the loop over the blocks.\<close>

definition dmi_block :: "string \<Rightarrow> dmi_state \<Rightarrow> dmi_state" where
  "dmi_block block st =
     (if strip block = [] then st
      else
        (let st1 = (case search_designation block of
                      Some g \<Rightarrow> st\<lparr>current_designation := strip g\<rparr>
                    | None \<Rightarrow> st);
             st2 = (case search_type block of
                      Some g \<Rightarrow> st1\<lparr>current_type := strip g\<rparr>
                    | None \<Rightarrow> st1)
         in (case search_bus_address block of
               Some bus_addr \<Rightarrow>
                 (if current_designation st2 \<noteq> [] then
                    st2\<lparr>DMI_DESIG := (DMI_DESIG st2)(bus_addr \<mapsto> current_designation st2),
                        DMI_TYPE := (DMI_TYPE st2)(bus_addr \<mapsto>
                          (if current_type st2 \<noteq> [] then current_type st2 else ''Unknown''))\<rparr>
                  else st2)
             | None \<Rightarrow> st2)))"

text \<open>
  \<^verbatim>\<open>parse_dmi_slots\<close>.  \<open>have_dmidecode\<close> is \<^verbatim>\<open>shutil.which("dmidecode") is not None\<close>
  and \<open>out\<close> is what \<^verbatim>\<open>try_run(["sudo", "dmidecode", "-t", "9"])\<close> returns (the empty text
  when the command fails).
\<close>

definition parse_dmi_slots ::
  "bool \<Rightarrow> string \<Rightarrow> (string \<rightharpoonup> string) \<times> (string \<rightharpoonup> string)" where
  "parse_dmi_slots have_dmidecode out =
     (if \<not> have_dmidecode then (Map.empty, Map.empty)
      else (let st = fold dmi_block (split_blocks [] out) dmi_init
            in (DMI_DESIG st, DMI_TYPE st)))"

subsection \<open>The catalog, described from the blocks\<close>




















subsection \<open>Claim on the catalog builder\<close>

text \<open>Two slot tables for evaluation: one in which an address comes in a block of its own
  after the block of its designation, and one with a designation line that is blank.\<close>

definition example_slot_table :: string where
  "example_slot_table =
     ''Handle 0x0028, DMI type 9, 17 bytes'' @ [NL] @
     ''System Slot Information'' @ [NL] @
     [CHR 0x09] @ ''Designation: PCIE_3_SLOT2'' @ [NL] @
     [CHR 0x09] @ ''Type: x16 PCI Express 4'' @ [NL] @
     [CHR 0x09] @ ''Bus Address: 0000:17:00.0'' @ [NL] @ [NL] @
     ''Handle 0x0029, DMI type 9, 17 bytes'' @ [NL] @
     [CHR 0x09] @ ''Designation: PCIE_1_SLOT1'' @ [NL] @ [NL] @
     [CHR 0x09] @ ''Bus Address: 0016:01:00.0'' @ [NL]"





section \<open>GPU discovery\<close>

subsection \<open>Lines of the listing\<close>

text \<open>\<^verbatim>\<open>str.splitlines()\<close>: for code points below 256 a line ends at a newline, a
  carriage return (with the newline after it, if any), or one of the separators 0B, 0C,
  1C, 1D, 1E and 85; the line ends are dropped and no empty line follows the last one.\<close>

definition is_linebreak :: "char \<Rightarrow> bool" where
  "is_linebreak c \<longleftrightarrow>
     c \<in> {CHR 0x0A, CHR 0x0B, CHR 0x0C, CHR 0x1C, CHR 0x1D, CHR 0x1E, CHR 0x85}"

fun splitlines :: "string \<Rightarrow> string \<Rightarrow> string list" where
  "splitlines cur [] = (if cur = [] then [] else [rev cur])"
| "splitlines cur (c # cs) =
     (if c = CHR 0x0D then
        (case cs of
           [] \<Rightarrow> [rev cur]
         | d # ds \<Rightarrow> if d = NL then rev cur # splitlines [] ds else rev cur # splitlines [] cs)
      else if is_linebreak c then rev cur # splitlines [] cs
      else splitlines (c # cur) cs)"

text \<open>\<^verbatim>\<open>str.lower()\<close> on a code point below 256.\<close>

definition py_lower :: "char \<Rightarrow> char" where
  "py_lower c =
     (let n = (of_char c :: nat)
      in if (65 \<le> n \<and> n \<le> 90) \<or> (192 \<le> n \<and> n \<le> 222 \<and> n \<noteq> 215)
         then char_of (n + 32) else c)"

text \<open>
  \<^verbatim>\<open>re.match(r"^([0-9a-fA-F]{4}):([0-9a-fA-F]{2}:[0-9a-fA-F]{2}\.[0-7])\s+(.*)$", line)\<close>:
  the groups domain, address without domain and rest.  At least one white space follows
  the address; \<^verbatim>\<open>\s+\<close> takes the whole run, and the rest has to reach the end of the text
  (or a newline that ends it) without a newline.
\<close>

definition re_lspci_line :: "string \<Rightarrow> (string \<times> string \<times> string) option" where
  "re_lspci_line line =
     (let t = drop 12 line; u = dropWhile is_space t; r = takeWhile (\<lambda>x. x \<noteq> NL) u
      in if bdf_shape is_oct (take 12 line) \<and> takeWhile is_space t \<noteq> [] \<and>
            (u = r \<or> u = r @ [NL])
         then Some (take 4 line, take 7 (drop 5 line), r) else None)"

text \<open>The class test on the rest of the line.\<close>

definition gpu_class :: "string \<Rightarrow> bool" where
  "gpu_class rest \<longleftrightarrow>
     sublist ''[0300]'' rest \<or> sublist ''[0302]'' rest \<or>
     sublist ''VGA compatible controller'' rest \<or> sublist ''3D controller'' rest"

text \<open>One turn of the loop over the lines: the address appended to \<^verbatim>\<open>bdfs\<close>, if any.\<close>

definition gpu_line :: "string \<Rightarrow> string option" where
  "gpu_line line =
     (if \<not> sublist ''[10de:'' (map py_lower line) then None
      else (case re_lspci_line line of
              None \<Rightarrow> None
            | Some (dm, nodom, rest) \<Rightarrow> if gpu_class rest then Some nodom else None))"

definition gpu_bdfs :: "string \<Rightarrow> string list" where
  "gpu_bdfs listing = List.map_filter gpu_line (splitlines [] listing)"

subsection \<open>The sort key\<close>

text \<open>\<^verbatim>\<open>str.split(sep)\<close> for a separator of one character.\<close>

fun split_on :: "char \<Rightarrow> string \<Rightarrow> string \<Rightarrow> string list" where
  "split_on sep cur [] = [rev cur]"
| "split_on sep cur (c # cs) =
     (if c = sep then rev cur # split_on sep [] cs else split_on sep (c # cur) cs)"

text \<open>
  \<^verbatim>\<open>keyfn\<close>: unpacking a split into two names raises \<^verbatim>\<open>ValueError\<close> unless it has two
  parts, and so does a conversion that fails.  The sort applies it to the addresses of
  \<^verbatim>\<open>bdfs\<close> only, whose parts are digits, where \<open>int16\<close> and \<open>int10\<close> are
  \<^verbatim>\<open>int(_, 16)\<close> and \<^verbatim>\<open>int(_)\<close>.
\<close>

definition keyfn :: "string \<Rightarrow> py_error + (nat \<times> nat \<times> nat)" where
  "keyfn s =
     (case split_on (CHR '':'') [] s of
        [bus, devfn] \<Rightarrow>
          (case split_on (CHR ''.'') [] devfn of
             [dev, fn] \<Rightarrow>
               (case (int16 bus, int16 dev, int10 fn) of
                  (Some b, Some d, Some f) \<Rightarrow> Inr (b, d, f)
                | _ \<Rightarrow> Inl ValueError)
           | _ \<Rightarrow> Inl ValueError)
      | _ \<Rightarrow> Inl ValueError)"

definition sort_key_of :: "string \<Rightarrow> nat \<times> nat \<times> nat" where
  "sort_key_of s = (case keyfn s of Inr k \<Rightarrow> k | Inl _ \<Rightarrow> (0, 0, 0))"

text \<open>
  \<^verbatim>\<open>sorted(set(bdfs), key=keyfn)\<close>.  The order in which Python goes through a set of
  texts is not fixed by the program (it depends on the hashes of the run); \<open>order\<close> is that
  order: it lists the elements of the set, each once.  The sort is stable, as
  \<^const>\<open>sort_key\<close> is, and it raises what a key raises.
\<close>

definition sorted_set :: "(string list \<Rightarrow> string list) \<Rightarrow> string list \<Rightarrow> py_error + string list" where
  "sorted_set order bdfs =
     (let xs = order bdfs
      in if list_all (\<lambda>x. \<not> isl (keyfn x)) xs then Inr (sort_key sort_key_of xs)
         else Inl ValueError)"

text \<open>
  \<^verbatim>\<open>discover_gpu_bdfs\<close>.  \<open>have_lspci\<close> is \<^verbatim>\<open>shutil.which("lspci") is not None\<close>; \<open>out1\<close> and
  \<open>out2\<close> are what \<^verbatim>\<open>try_run(["lspci", "-Dnns", "10de:"])\<close> and
  \<^verbatim>\<open>try_run(["lspci", "-Dnn"])\<close> return.  \<^verbatim>\<open>pytest.skip\<close> raises.
\<close>

definition discover_gpu_bdfs ::
  "(string list \<Rightarrow> string list) \<Rightarrow> bool \<Rightarrow> string \<Rightarrow> string \<Rightarrow> py_error + string list" where
  "discover_gpu_bdfs order have_lspci out1 out2 =
     (if \<not> have_lspci then
        Inl (Skipped ''pciutils not installed (sudo apt-get install -y pciutils)'')
      else
        (let listing = (if out1 \<noteq> [] then out1 else out2)
         in if listing = [] then Inl (Skipped ''lspci returned no output'')
            else sorted_set order (gpu_bdfs listing)))"

subsection \<open>Facts on the lines and the key\<close>

lemma hex_not_sep: "is_hex c \<Longrightarrow> c \<noteq> CHR '':'' \<and> c \<noteq> CHR ''.''"
  unfolding is_hex_def by auto

lemma oct_digit_table: "\<forall>c \<in> set ''01234567''. is_digit c \<and> int10 [c] = int16 [c]"
  by code_simp

lemma oct_int10: "is_oct c \<Longrightarrow> int10 [c] = int16 [c]"
  using oct_digit_table unfolding is_oct_def by blast

lemma take7_drop5:
  "12 \<le> length s \<Longrightarrow>
   take 7 (drop 5 s) = [s ! 5, s ! 6, s ! 7, s ! 8, s ! 9, s ! 10, s ! 11]"
proof -
  assume l: "12 \<le> length s"
  have "length (take 7 (drop 5 s)) = 7" using l by simp
  moreover have "\<forall>i<7. take 7 (drop 5 s) ! i = s ! (5 + i)" using l by simp
  ultimately show ?thesis
    by (intro nth_equalityI) (auto simp: nth_Cons' less_Suc_eq numeral_eq_Suc)
qed


lemma nodom_shape:
  assumes "re_lspci_line line = Some (dm, x, rest)"
  shows "\<exists>a b c d e. x = [a, b, CHR '':'', c, d, CHR ''.'', e] \<and>
           is_hex a \<and> is_hex b \<and> is_hex c \<and> is_hex d \<and> is_oct e"
proof -
  from assms have sh: "bdf_shape is_oct (take 12 line)" and x: "x = take 7 (drop 5 line)"
    by (auto simp: re_lspci_line_def Let_def split: if_splits)
  from sh have "length (take 12 line) = 12" by (simp add: bdf_shape_def)
  then have l: "12 \<le> length line" by (simp add: min_def split: if_splits)
  from sh have "is_hex (line ! 5)" "is_hex (line ! 6)" "line ! 7 = CHR '':''"
    "is_hex (line ! 8)" "is_hex (line ! 9)" "line ! 10 = CHR ''.''" "is_oct (line ! 11)"
    by (simp_all add: bdf_shape_def)
  with x take7_drop5 [OF l] show ?thesis by simp
qed

lemma keyfn_nodom:
  assumes "is_hex a" "is_hex b" "is_hex c" "is_hex d" "is_oct e"
  shows "\<exists>bus dev fn. keyfn [a, b, CHR '':'', c, d, CHR ''.'', e] = Inr (bus, dev, fn) \<and>
           int16 [a, b] = Some bus \<and> int16 [c, d] = Some dev \<and> int16 [e] = Some fn"
proof -
  obtain bus where bus: "int16 [a, b] = Some bus" using int16_byte [OF assms(1,2)] by blast
  obtain dev where dev: "int16 [c, d] = Some dev" using int16_byte [OF assms(3,4)] by blast
  obtain fn where fn: "int16 [e] = Some fn" using int16_oct [OF assms(5)] by blast
  have e: "is_hex e" using assms(5) by (rule is_oct_is_hex)
  have n: "a \<noteq> CHR '':''" "b \<noteq> CHR '':''" "c \<noteq> CHR '':''" "d \<noteq> CHR '':''"
    "e \<noteq> CHR '':''" "c \<noteq> CHR ''.''" "d \<noteq> CHR ''.''" "e \<noteq> CHR ''.''"
    using hex_not_sep [OF assms(1)] hex_not_sep [OF assms(2)] hex_not_sep [OF assms(3)]
      hex_not_sep [OF assms(4)] hex_not_sep [OF e]
    by simp_all
  have "keyfn [a, b, CHR '':'', c, d, CHR ''.'', e] = Inr (bus, dev, fn)"
    by (simp add: keyfn_def n bus dev oct_int10 [OF assms(5)] fn)
  with bus dev fn show ?thesis by blast
qed

lemma keyfn_gpu_line:
  assumes "gpu_line line = Some x"
  shows "\<exists>k. keyfn x = Inr k"
proof -
  from assms obtain dm rest where "re_lspci_line line = Some (dm, x, rest)"
    by (auto simp: gpu_line_def split: if_splits option.splits)
  from nodom_shape [OF this] keyfn_nodom show ?thesis by blast
qed

lemma set_map_filter: "set (List.map_filter f xs) = {y. \<exists>x\<in>set xs. f x = Some y}"
  by (induction xs) (auto split: option.splits)

lemma keyfn_gpu_bdfs: "x \<in> set (gpu_bdfs listing) \<Longrightarrow> \<exists>k. keyfn x = Inr k"
  by (auto simp: gpu_bdfs_def set_map_filter dest: keyfn_gpu_line)

lemma sorted_set_ok:
  assumes "set (order bdfs) = set bdfs" and "\<forall>x\<in>set bdfs. \<exists>k. keyfn x = Inr k"
  shows "sorted_set order bdfs = Inr (sort_key sort_key_of (order bdfs))"
proof -
  have "list_all (\<lambda>x. \<not> isl (keyfn x)) (order bdfs)"
    using assms by (auto simp: list_all_iff)
  then show ?thesis by (simp add: sorted_set_def Let_def)
qed


lemma parse_nodom:
  assumes "is_hex a" "is_hex b" "is_hex c" "is_hex d" "is_oct e"
    and "int16 [a, b] = Some bus" "int16 [c, d] = Some dev" "int16 [e] = Some fn"
  shows "parse_address (''0000:'' @ [a, b, CHR '':'', c, d, CHR ''.'', e]) = Some (0, bus, dev, fn)"
proof -
  have "re_bdf (''0000:'' @ [a, b, CHR '':'', c, d, CHR ''.'', e]) =
      Some (''0000'', [a, b], [c, d], [e])"
    using assms(1-5) by (simp add: re_bdf_def bdf_shape_def is_hex_zero)
  moreover have "int16 ''0000'' = Some 0"
    using int16_four [OF hexval_zero hexval_zero hexval_zero hexval_zero] by simp
  ultimately show ?thesis
    using assms(6-8) by (simp add: parse_address_def)
qed

lemma gpu_line_key:
  assumes "gpu_line line = Some x"
  shows "\<exists>bus dev fn. keyfn x = Inr (bus, dev, fn) \<and>
           parse_address (''0000:'' @ x) = Some (0, bus, dev, fn)"
proof -
  from assms obtain dm rest where "re_lspci_line line = Some (dm, x, rest)"
    by (auto simp: gpu_line_def split: if_splits option.splits)
  from nodom_shape [OF this] obtain a b c d e
    where x: "x = [a, b, CHR '':'', c, d, CHR ''.'', e]"
      and h: "is_hex a" "is_hex b" "is_hex c" "is_hex d" "is_oct e"
    by blast
  from keyfn_nodom [OF h] obtain bus dev fn
    where k: "keyfn [a, b, CHR '':'', c, d, CHR ''.'', e] = Inr (bus, dev, fn)"
      "int16 [a, b] = Some bus" "int16 [c, d] = Some dev" "int16 [e] = Some fn"
    by blast
  from parse_nodom [OF h k(2-4)] k(1) x show ?thesis by blast
qed

lemma gpu_line_iff:
  "gpu_line line = Some x \<longleftrightarrow>
     (\<exists>dm rest. sublist ''[10de:'' (map py_lower line) \<and>
        re_lspci_line line = Some (dm, x, rest) \<and> gpu_class rest)"
proof (cases "re_lspci_line line")
  case None
  then show ?thesis by (simp add: gpu_line_def)
next
  case (Some m)
  obtain dm nodom rest where m: "m = (dm, nodom, rest)" by (cases m)
  show ?thesis by (auto simp: gpu_line_def Some m)
qed

subsection \<open>Claim on discovery\<close>

text \<open>A listing for evaluation: two GPUs out of order, one of them listed twice and with
  its vendor in capitals, a bridge of another vendor, and an audio function of the
  vendor.\<close>

definition example_listing :: string where
  "example_listing =
     ''0000:65:00.0 3D controller [0302]: NVIDIA Corporation Device [10de:2330] (rev a1)'' @ [NL] @
     ''0000:17:00.0 VGA compatible controller [0300]: NVIDIA Corporation Device [10DE:2204]'' @ [NL] @
     ''0000:00:1f.0 ISA bridge [0601]: Intel Corporation Device [8086:7a06]'' @ [NL] @
     ''0000:65:00.1 Audio device [0403]: NVIDIA Corporation Device [10de:22ba]'' @ [NL] @
     ''0000:17:00.0 VGA compatible controller [0300]: NVIDIA Corporation Device [10DE:2204]'' @ [NL]"

text \<open>
  C7.  When \<^verbatim>\<open>lspci\<close> is there and the listing is not empty, \<^verbatim>\<open>discover_gpu_bdfs\<close>
  returns (it raises nothing) a sequence that is ascending in the key, which is the bus,
  device and function of the address as numbers; every address is in it once; and it holds
  exactly the addresses of the listed lines that carry the vendor \<^verbatim>\<open>[10de:\<close> (in either
  case of the letters), start with an address and have the class code \<^verbatim>\<open>[0300]\<close> or
  \<^verbatim>\<open>[0302]\<close> or one of the class texts after it.  This holds in whatever order Python goes
  through the set.
\<close>

theorem discover_gpu_bdfs_sorted:
  assumes "have_lspci"
    and "listing = (if out1 \<noteq> [] then out1 else out2)" and "listing \<noteq> []"
    and "set (order (gpu_bdfs listing)) = set (gpu_bdfs listing)"
    and "distinct (order (gpu_bdfs listing))"
  shows "\<exists>gpus. discover_gpu_bdfs order have_lspci out1 out2 = Inr gpus \<and>
           sorted (map sort_key_of gpus) \<and> distinct gpus \<and>
           (\<forall>g\<in>set gpus. \<exists>bus dev fn. sort_key_of g = (bus, dev, fn) \<and>
              parse_address (''0000:'' @ g) = Some (0, bus, dev, fn)) \<and>
           set gpus =
             {nodom. \<exists>line\<in>set (splitlines [] listing). \<exists>dm rest.
                sublist ''[10de:'' (map py_lower line) \<and>
                re_lspci_line line = Some (dm, nodom, rest) \<and>
                (sublist ''[0300]'' rest \<or> sublist ''[0302]'' rest \<or>
                 sublist ''VGA compatible controller'' rest \<or> sublist ''3D controller'' rest)}"
proof -
  let ?xs = "order (gpu_bdfs listing)"
  let ?gpus = "sort_key sort_key_of ?xs"
  have ok: "\<forall>x\<in>set (gpu_bdfs listing). \<exists>k. keyfn x = Inr k"
    using keyfn_gpu_bdfs by blast
  have d: "discover_gpu_bdfs order have_lspci out1 out2 = Inr ?gpus"
    using assms(1-3) sorted_set_ok [of order "gpu_bdfs listing", OF assms(4) ok]
    by (simp add: discover_gpu_bdfs_def Let_def)
  have s: "sorted (map sort_key_of ?gpus)" by (rule sorted_sort_key)
  have di: "distinct ?gpus" using assms(5) by simp
  have st: "set ?gpus = set (gpu_bdfs listing)" using assms(4) by simp
  have k: "\<forall>g\<in>set ?gpus. \<exists>bus dev fn. sort_key_of g = (bus, dev, fn) \<and>
              parse_address (''0000:'' @ g) = Some (0, bus, dev, fn)"
  proof
    fix g assume "g \<in> set ?gpus"
    with st obtain line where "gpu_line line = Some g"
      by (auto simp: gpu_bdfs_def set_map_filter)
    from gpu_line_key [OF this] show "\<exists>bus dev fn. sort_key_of g = (bus, dev, fn) \<and>
              parse_address (''0000:'' @ g) = Some (0, bus, dev, fn)"
      by (auto simp: sort_key_of_def)
  qed
  have c: "set (gpu_bdfs listing) =
             {nodom. \<exists>line\<in>set (splitlines [] listing). \<exists>dm rest.
                sublist ''[10de:'' (map py_lower line) \<and>
                re_lspci_line line = Some (dm, nodom, rest) \<and>
                (sublist ''[0300]'' rest \<or> sublist ''[0302]'' rest \<or>
                 sublist ''VGA compatible controller'' rest \<or> sublist ''3D controller'' rest)}"
    unfolding gpu_bdfs_def set_map_filter gpu_line_iff gpu_class_def
    by blast
  from d s di k st c show ?thesis by (intro exI [of _ ?gpus]) simp
qed

theorem discover_gpu_bdfs_sorted_witness:
  "example_listing \<noteq> [] \<and>
   discover_gpu_bdfs remdups True [] example_listing = Inr [''17:00.0'', ''65:00.0''] \<and>
   sorted (map sort_key_of [''17:00.0'', ''65:00.0'']) \<and>
   distinct [''17:00.0'', ''65:00.0'']"
proof -
  have h2: "example_listing = (if ([] :: string) \<noteq> [] then [] else example_listing)"
    by simp
  have h3: "example_listing \<noteq> []" by code_simp
  have e: "discover_gpu_bdfs remdups True [] example_listing = Inr [''17:00.0'', ''65:00.0'']"
    by code_simp
  from discover_gpu_bdfs_sorted [of True example_listing "[]" example_listing remdups,
      OF TrueI h2 h3 set_remdups distinct_remdups]
  obtain gpus where g: "discover_gpu_bdfs remdups True [] example_listing = Inr gpus"
    "sorted (map sort_key_of gpus)" "distinct gpus"
    by blast
  from g(1) e have "gpus = [''17:00.0'', ''65:00.0'']" by simp
  with g(2,3) h3 e show ?thesis by simp
qed

section \<open>The test run\<close>

subsection \<open>The host\<close>

text \<open>
  What the test reads from the machine it runs on: the conversions of Python, the order
  in which a set is gone through, whether the two tools are installed and what they print,
  the real path of a file (\<^verbatim>\<open>os.path.realpath\<close>), and what \<^verbatim>\<open>get_link_fields\<close> and
  \<^verbatim>\<open>get_gpu_short_name\<close> return for a device: four texts and one text scraped from
  \<^verbatim>\<open>lspci\<close>, which no property below looks into.
\<close>

record 'f host =
  conversions :: "'f builtins"
  set_order :: "string list \<Rightarrow> string list"
  have_lspci :: bool
  lspci_out1 :: string
  lspci_out2 :: string
  have_dmidecode :: bool
  dmidecode_out :: string
  realpath :: "string \<Rightarrow> string"
  get_link_fields :: "string \<Rightarrow> string \<times> string \<times> string \<times> string"
  get_gpu_short_name :: "string \<Rightarrow> string"

text \<open>
  \<^verbatim>\<open>re.findall(r"0000:[0-9a-fA-F]{2}:[0-9a-fA-F]{2}\.[0-7]", p)\<close>: the matches from left to
  right, the search going on after each match.
\<close>

definition chain_shape :: "string \<Rightarrow> bool" where
  "chain_shape p \<longleftrightarrow> bdf_shape is_oct p \<and> take 4 p = ''0000''"

fun findall_bdf :: "string \<Rightarrow> string list" where
  "findall_bdf [] = []"
| "findall_bdf (c # cs) =
     (if chain_shape (take 12 (c # cs)) then take 12 (c # cs) # findall_bdf (drop 11 cs)
      else findall_bdf cs)"

definition get_chain_for_device :: "'f host \<Rightarrow> string \<Rightarrow> string list" where
  "get_chain_for_device h dev_nodom =
     findall_bdf (realpath h (''/sys/bus/pci/devices/0000:'' @ dev_nodom))"

subsection \<open>One GPU\<close>

record row =
  row_bdf :: string
  row_name :: string
  row_slot_name :: string
  row_location :: string
  row_status :: string
  row_cap_s :: string
  row_sta_s :: string
  row_cap_w :: string
  row_sta_w :: string

text \<open>\<^verbatim>\<open>' '.join(xs)\<close> and \<^verbatim>\<open>x or "?"\<close>.\<close>

fun join_sp :: "string list \<Rightarrow> string" where
  "join_sp [] = []"
| "join_sp [x] = x"
| "join_sp (x # y # ys) = x @ '' '' @ join_sp (y # ys)"

definition or_unknown :: "string \<Rightarrow> string" where
  "or_unknown s = (if s \<noteq> [] then s else ''?'')"

text \<open>
  The body of the loop for a GPU whose chain has two addresses or more: the row it appends
  and the line it prints.  \<^verbatim>\<open>re.match(...).groups()\<close> raises \<^verbatim>\<open>AttributeError\<close> when the
  last bridge does not match.
\<close>

definition gpu_row ::
  "'f host \<Rightarrow> (string \<rightharpoonup> string) \<Rightarrow> string \<Rightarrow> string list \<Rightarrow> py_error + (row \<times> string)" where
  "gpu_row h dmi_desig g chain =
     (let root_bdf = chain ! 0 in
      (case dmi_key_from_bdf root_bdf of
         Inl e \<Rightarrow> Inl e
       | Inr dmikey \<Rightarrow>
          (let slot = (case dmi_desig dmikey of Some d \<Rightarrow> d | None \<Rightarrow> ''-'');
               verdict = (if slot \<noteq> ''-'' then ''[OK]'' else ''[MISS]'');
               chain_text = g @ '' <- '' @ join_sp (rev chain) @ '' | Root Port '' @ dmikey @
                            '' -> '' @ slot @ '' '' @ verdict;
               last_bridge = chain ! (length chain - 2)
           in (case re_bdf last_bridge of
                 None \<Rightarrow> Inl AttributeError
               | Some (dm, bus, dev, fn) \<Rightarrow>
                  (let grp = riser_group_from_desig slot;
                       side = riser_side grp;
                       lr = riser_lr grp;
                       inner = inner_slot_from_dev_with_group grp dev;
                       key = slot_key grp inner;
                       gpulabel = gpu_label_from_key key;
                       (cap_s, cap_w, sta_s, sta_w) = get_link_fields h g;
                       status = link_status_tag (conversions h) cap_s cap_w sta_s sta_w;
                       name = get_gpu_short_name h g
                   in Inr (\<lparr>row_bdf = g, row_name = name,
                             row_slot_name = gpulabel @ '' ('' @ key @ '')'',
                             row_location = side @ ''-'' @ lr @ ''-'' @ inner,
                             row_status = status,
                             row_cap_s = or_unknown cap_s, row_sta_s = or_unknown sta_s,
                             row_cap_w = or_unknown cap_w, row_sta_w = or_unknown sta_w\<rparr>,
                           chain_text))))))"

record run_state =
  rows :: "row list"
  downgraded :: "string list"
  printed :: "string list"

definition run_init :: run_state where
  "run_init = \<lparr>rows = [], downgraded = [], printed = []\<rparr>"

text \<open>One turn of the loop over the GPUs; \<open>printed\<close> collects the lines the loop prints.\<close>

definition gpu_step ::
  "'f host \<Rightarrow> (string \<rightharpoonup> string) \<Rightarrow> string \<Rightarrow> run_state \<Rightarrow> py_error + run_state" where
  "gpu_step h dmi_desig g st =
     (let chain = get_chain_for_device h g in
      if length chain < 2 then Inr (st\<lparr>printed := printed st @ [g @ '' | (no bridges found)'']\<rparr>)
      else
        (case gpu_row h dmi_desig g chain of
           Inl e \<Rightarrow> Inl e
         | Inr (r, chain_text) \<Rightarrow>
             Inr (st\<lparr>rows := rows st @ [r],
                     downgraded := (if row_status r = ''DOWNGRADED'' then downgraded st @ [g]
                                    else downgraded st),
                     printed := printed st @ [chain_text]\<rparr>)))"

fun gpu_loop ::
  "'f host \<Rightarrow> (string \<rightharpoonup> string) \<Rightarrow> string list \<Rightarrow> run_state \<Rightarrow> py_error + run_state" where
  "gpu_loop h dmi_desig [] st = Inr st"
| "gpu_loop h dmi_desig (g # gs) st =
     (case gpu_step h dmi_desig g st of
        Inl e \<Rightarrow> Inl e
      | Inr st' \<Rightarrow> gpu_loop h dmi_desig gs st')"

subsection \<open>The test\<close>

text \<open>
  \<^verbatim>\<open>test_gpu_pcie_topology_and_links\<close>: the discovery, the catalog, the loop and the final
  assertion.  The two tables the test prints are output only and are left out.  The result
  is the state of the loop when the test passes, and what was raised when it does not:
  \<open>Skipped\<close> for \<^verbatim>\<open>pytest.skip\<close>, \<open>AssertionError\<close> with the downgraded GPUs for the
  assertion.
\<close>

definition test_gpu_pcie_topology_and_links :: "'f host \<Rightarrow> py_error + run_state" where
  "test_gpu_pcie_topology_and_links h =
     (case discover_gpu_bdfs (set_order h) (have_lspci h) (lspci_out1 h) (lspci_out2 h) of
        Inl e \<Rightarrow> Inl e
      | Inr gpus \<Rightarrow>
          if gpus = [] then Inl (Skipped ''No NVIDIA GPUs detected by lspci'')
          else
            (let (dmi_desig, dmi_type) = parse_dmi_slots (have_dmidecode h) (dmidecode_out h)
             in (case gpu_loop h dmi_desig gpus run_init of
                   Inl e \<Rightarrow> Inl e
                 | Inr st \<Rightarrow>
                     if downgraded st \<noteq> [] then Inl (AssertionError (downgraded st))
                     else Inr st)))"

subsection \<open>The chain is made of addresses\<close>

lemma findall_bdf_shape: "x \<in> set (findall_bdf s) \<Longrightarrow> chain_shape x"
  by (induction s rule: findall_bdf.induct) (auto split: if_splits)

lemma chain_shape_re_bdf:
  assumes "chain_shape x"
  shows "\<exists>dm bus dev fn. re_bdf x = Some (dm, bus, dev, fn)"
proof -
  from assms have "bdf_shape is_oct x" by (simp add: chain_shape_def)
  moreover from this have "length x = 12" by (simp add: bdf_shape_def)
  ultimately show ?thesis by (simp add: re_bdf_def)
qed

lemma chain_shape_key:
  assumes "chain_shape x"
  shows "\<exists>key. dmi_key_from_bdf x = Inr key"
proof -
  from chain_shape_re_bdf [OF assms] obtain dm bus dev fn
    where "re_bdf x = Some (dm, bus, dev, fn)" by blast
  from dmi_key_of_match [OF this] show ?thesis by blast
qed

subsection \<open>What the loop computes\<close>

text \<open>
  The words of the properties: the pass/fail set is the GPUs whose chain has two addresses
  or more, in the order of discovery; a GPU's verdict is the tag of its link fields;
  \<open>the_row\<close> and \<open>report_line\<close> are the row and the printed line of a GPU.
\<close>

definition pass_fail_set :: "'f host \<Rightarrow> string list \<Rightarrow> string list" where
  "pass_fail_set h gpus = filter (\<lambda>g. 2 \<le> length (get_chain_for_device h g)) gpus"

definition verdict_of :: "'f host \<Rightarrow> string \<Rightarrow> string" where
  "verdict_of h g =
     (case get_link_fields h g of
        (cap_s, cap_w, sta_s, sta_w) \<Rightarrow> link_status_tag (conversions h) cap_s cap_w sta_s sta_w)"

definition the_row :: "'f host \<Rightarrow> (string \<rightharpoonup> string) \<Rightarrow> string \<Rightarrow> row" where
  "the_row h dmi_desig g = fst (projr (gpu_row h dmi_desig g (get_chain_for_device h g)))"

definition report_line :: "'f host \<Rightarrow> (string \<rightharpoonup> string) \<Rightarrow> string \<Rightarrow> string" where
  "report_line h dmi_desig g =
     (if length (get_chain_for_device h g) < 2 then g @ '' | (no bridges found)''
      else snd (projr (gpu_row h dmi_desig g (get_chain_for_device h g))))"

lemma gpu_row_ok:
  assumes "2 \<le> length (get_chain_for_device h g)"
  shows "\<exists>r line. gpu_row h dmi_desig g (get_chain_for_device h g) = Inr (r, line) \<and>
           row_bdf r = g \<and> row_status r = verdict_of h g"
proof -
  let ?chain = "get_chain_for_device h g"
  have l0: "0 < length ?chain" and l2: "length ?chain - 2 < length ?chain"
    using assms by linarith+
  have "?chain ! 0 \<in> set ?chain" "?chain ! (length ?chain - 2) \<in> set ?chain"
    using nth_mem [OF l0] nth_mem [OF l2] by blast+
  then have "chain_shape (?chain ! 0)" "chain_shape (?chain ! (length ?chain - 2))"
    unfolding get_chain_for_device_def by (blast intro: findall_bdf_shape)+
  then obtain key dm bus dev fn where k: "dmi_key_from_bdf (?chain ! 0) = Inr key"
    and m: "re_bdf (?chain ! (length ?chain - 2)) = Some (dm, bus, dev, fn)"
    using chain_shape_key chain_shape_re_bdf by blast
  obtain cap_s cap_w sta_s sta_w where l: "get_link_fields h g = (cap_s, cap_w, sta_s, sta_w)"
    by (cases "get_link_fields h g")
  show ?thesis
    by (simp add: gpu_row_def Let_def k m l verdict_of_def)
qed

lemma gpu_step_short:
  assumes "length (get_chain_for_device h g) < 2"
  shows "gpu_step h dmi_desig g st =
     Inr (st\<lparr>printed := printed st @ [report_line h dmi_desig g]\<rparr>)"
  using assms by (simp add: gpu_step_def report_line_def)

lemma gpu_step_long:
  assumes "2 \<le> length (get_chain_for_device h g)"
  shows "gpu_step h dmi_desig g st =
     Inr (st\<lparr>rows := rows st @ [the_row h dmi_desig g],
             downgraded := (if verdict_of h g = ''DOWNGRADED'' then downgraded st @ [g]
                            else downgraded st),
             printed := printed st @ [report_line h dmi_desig g]\<rparr>)"
proof -
  from gpu_row_ok [OF assms, of dmi_desig] obtain r line
    where r: "gpu_row h dmi_desig g (get_chain_for_device h g) = Inr (r, line)"
      "row_status r = verdict_of h g"
    by blast
  from assms have n: "\<not> length (get_chain_for_device h g) < 2" by simp
  show ?thesis
    by (simp add: gpu_step_def Let_def n r the_row_def report_line_def)
qed

lemma gpu_loop_result:
  "\<exists>st'. gpu_loop h dmi_desig gpus st = Inr st' \<and>
     rows st' = rows st @ map (the_row h dmi_desig) (pass_fail_set h gpus) \<and>
     downgraded st' =
       downgraded st @ filter (\<lambda>g. verdict_of h g = ''DOWNGRADED'') (pass_fail_set h gpus) \<and>
     printed st' = printed st @ map (report_line h dmi_desig) gpus"
proof (induction gpus arbitrary: st)
  case Nil
  show ?case by (simp add: pass_fail_set_def)
next
  case (Cons g gpus)
  show ?case
  proof (cases "2 \<le> length (get_chain_for_device h g)")
    case True
    let ?st1 = "st\<lparr>rows := rows st @ [the_row h dmi_desig g],
             downgraded := (if verdict_of h g = ''DOWNGRADED'' then downgraded st @ [g]
                            else downgraded st),
             printed := printed st @ [report_line h dmi_desig g]\<rparr>"
    from Cons.IH [of ?st1] obtain st' where "gpu_loop h dmi_desig gpus ?st1 = Inr st'"
      "rows st' = rows ?st1 @ map (the_row h dmi_desig) (pass_fail_set h gpus)"
      "downgraded st' = downgraded ?st1 @
         filter (\<lambda>g. verdict_of h g = ''DOWNGRADED'') (pass_fail_set h gpus)"
      "printed st' = printed ?st1 @ map (report_line h dmi_desig) gpus"
      by blast
    with True show ?thesis
      by (simp add: gpu_step_long pass_fail_set_def)
  next
    case False
    then have short: "length (get_chain_for_device h g) < 2" by simp
    let ?st1 = "st\<lparr>printed := printed st @ [report_line h dmi_desig g]\<rparr>"
    from Cons.IH [of ?st1] obtain st' where "gpu_loop h dmi_desig gpus ?st1 = Inr st'"
      "rows st' = rows ?st1 @ map (the_row h dmi_desig) (pass_fail_set h gpus)"
      "downgraded st' = downgraded ?st1 @
         filter (\<lambda>g. verdict_of h g = ''DOWNGRADED'') (pass_fail_set h gpus)"
      "printed st' = printed ?st1 @ map (report_line h dmi_desig) gpus"
      by blast
    with False short show ?thesis
      by (simp add: gpu_step_short pass_fail_set_def)
  qed
qed

subsection \<open>The outcome of the test\<close>

text \<open>
  The GPUs the test works on and the catalog it looks them up in.  A test fails when it
  raises anything but a skip; a skipped test neither passes nor fails.
\<close>

definition discovered :: "'f host \<Rightarrow> string list" where
  "discovered h =
     (case discover_gpu_bdfs (set_order h) (have_lspci h) (lspci_out1 h) (lspci_out2 h) of
        Inr gpus \<Rightarrow> gpus
      | Inl _ \<Rightarrow> [])"

definition catalog :: "'f host \<Rightarrow> (string \<rightharpoonup> string)" where
  "catalog h = fst (parse_dmi_slots (have_dmidecode h) (dmidecode_out h))"

definition failed :: "py_error + 'a \<Rightarrow> bool" where
  "failed r = (case r of Inl (Skipped _) \<Rightarrow> False | Inl _ \<Rightarrow> True | Inr _ \<Rightarrow> False)"

text \<open>
  Below, the order in which a set is gone through is only assumed to list the elements of
  the set: \<open>\<forall>xs. set (order xs) = set xs\<close>.
\<close>

lemma discover_cases:
  assumes "\<forall>xs. set (order xs) = set xs"
  shows "(\<exists>msg. discover_gpu_bdfs order hl o1 o2 = Inl (Skipped msg)) \<or>
         (\<exists>gpus. discover_gpu_bdfs order hl o1 o2 = Inr gpus)"
proof -
  have "\<exists>gpus. sorted_set order (gpu_bdfs listing) = Inr gpus" for listing
    using sorted_set_ok [of order "gpu_bdfs listing"] assms keyfn_gpu_bdfs by blast
  then show ?thesis
    by (auto simp: discover_gpu_bdfs_def Let_def)
qed

lemma test_skipped:
  assumes "\<forall>xs. set (set_order h xs) = set xs" and "discovered h = []"
  shows "\<exists>msg. test_gpu_pcie_topology_and_links h = Inl (Skipped msg)"
  using discover_cases [OF assms(1), of "have_lspci h" "lspci_out1 h" "lspci_out2 h"] assms(2)
  by (auto simp: test_gpu_pcie_topology_and_links_def discovered_def)

lemma test_outcome:
  assumes "\<forall>xs. set (set_order h xs) = set xs" and "discovered h \<noteq> []"
  shows "\<exists>st. gpu_loop h (catalog h) (discovered h) run_init = Inr st \<and>
           test_gpu_pcie_topology_and_links h =
             (if downgraded st \<noteq> [] then Inl (AssertionError (downgraded st)) else Inr st)"
proof -
  from assms(2) obtain gpus where d:
    "discover_gpu_bdfs (set_order h) (have_lspci h) (lspci_out1 h) (lspci_out2 h) = Inr gpus"
    "discovered h = gpus"
    by (auto simp: discovered_def split: sum.splits)
  obtain st where st: "gpu_loop h (catalog h) gpus run_init = Inr st"
    using gpu_loop_result [of h "catalog h" gpus run_init] by blast
  obtain dd dt where p: "parse_dmi_slots (have_dmidecode h) (dmidecode_out h) = (dd, dt)"
    by (cases "parse_dmi_slots (have_dmidecode h) (dmidecode_out h)")
  then have c: "catalog h = dd" by (simp add: catalog_def)
  have "test_gpu_pcie_topology_and_links h =
      (if downgraded st \<noteq> [] then Inl (AssertionError (downgraded st)) else Inr st)"
    using assms(2) d st c p by (simp add: test_gpu_pcie_topology_and_links_def)
  with st d(2) show ?thesis by simp
qed

lemma loop_downgraded:
  assumes "gpu_loop h dmi_desig gpus run_init = Inr st"
  shows "downgraded st = filter (\<lambda>g. verdict_of h g = ''DOWNGRADED'') (pass_fail_set h gpus)"
    and "rows st = map (the_row h dmi_desig) (pass_fail_set h gpus)"
    and "printed st = map (report_line h dmi_desig) gpus"
  using gpu_loop_result [of h dmi_desig gpus run_init] assms
  by (auto simp: run_init_def)

lemma the_row_fields:
  assumes "2 \<le> length (get_chain_for_device h g)"
  shows "row_bdf (the_row h dmi_desig g) = g"
    and "row_status (the_row h dmi_desig g) = verdict_of h g"
  using gpu_row_ok [OF assms, of dmi_desig] by (auto simp: the_row_def)

lemma no_downgraded_iff:
  "filter (\<lambda>g. verdict_of h g = ''DOWNGRADED'') gs \<noteq> [] \<longleftrightarrow>
     (\<exists>g\<in>set gs. verdict_of h g = ''DOWNGRADED'')"
  by (simp add: filter_empty_conv)

lemma failed_iff:
  assumes "\<forall>xs. set (set_order h xs) = set xs"
  shows "failed (test_gpu_pcie_topology_and_links h) \<longleftrightarrow>
     (\<exists>g\<in>set (pass_fail_set h (discovered h)). verdict_of h g = ''DOWNGRADED'')"
proof (cases "discovered h = []")
  case True
  from test_skipped [OF assms True] obtain msg
    where "test_gpu_pcie_topology_and_links h = Inl (Skipped msg)" by blast
  with True show ?thesis by (simp add: failed_def pass_fail_set_def)
next
  case False
  from test_outcome [OF assms False] obtain st
    where st: "gpu_loop h (catalog h) (discovered h) run_init = Inr st"
      and t: "test_gpu_pcie_topology_and_links h =
        (if downgraded st \<noteq> [] then Inl (AssertionError (downgraded st)) else Inr st)"
    by blast
  have "failed (test_gpu_pcie_topology_and_links h) \<longleftrightarrow> downgraded st \<noteq> []"
    by (simp add: t failed_def)
  also have "\<dots> \<longleftrightarrow> (\<exists>g\<in>set (pass_fail_set h (discovered h)). verdict_of h g = ''DOWNGRADED'')"
    by (simp only: loop_downgraded(1) [OF st] no_downgraded_iff)
  finally show ?thesis .
qed

lemma unresolved_labels:
  "riser_group_from_desig ''-'' = []"
  "riser_side [] = ''ERROR''"
  "riser_lr [] = ''ERROR''"
  "slot_key [] ''ERROR'' = ''_PCIE_2''"
  "gpu_label_from_key ''_PCIE_2'' = ''ERROR''"
  by code_simp+

lemma inner_slot_no_group: "inner_slot_from_dev_with_group [] dev = ''ERROR''"
  by (simp add: inner_slot_from_dev_with_group_def)

lemma gpu_row_unmapped:
  assumes "2 \<le> length (get_chain_for_device h g)"
    and "dmi_key_from_bdf (get_chain_for_device h g ! 0) = Inr key"
    and "dmi_desig key = None"
  shows "row_slot_name (the_row h dmi_desig g) = ''ERROR (_PCIE_2)''"
    and "row_location (the_row h dmi_desig g) = ''ERROR-ERROR-ERROR''"
    and "report_line h dmi_desig g =
           g @ '' <- '' @ join_sp (rev (get_chain_for_device h g)) @ '' | Root Port '' @ key @
           '' -> - [MISS]''"
proof -
  let ?chain = "get_chain_for_device h g"
  have l2: "length ?chain - 2 < length ?chain" using assms(1) by linarith
  have "chain_shape (?chain ! (length ?chain - 2))"
    using nth_mem [OF l2] unfolding get_chain_for_device_def by (blast intro: findall_bdf_shape)
  then obtain dm bus dev fn
    where m: "re_bdf (?chain ! (length ?chain - 2)) = Some (dm, bus, dev, fn)"
    using chain_shape_re_bdf by blast
  obtain cap_s cap_w sta_s sta_w where l: "get_link_fields h g = (cap_s, cap_w, sta_s, sta_w)"
    by (cases "get_link_fields h g")
  have n: "\<not> length ?chain < 2" using assms(1) by simp
  have row: "gpu_row h dmi_desig g ?chain =
      Inr (\<lparr>row_bdf = g, row_name = get_gpu_short_name h g,
             row_slot_name = ''ERROR (_PCIE_2)'',
             row_location = ''ERROR-ERROR-ERROR'',
             row_status = link_status_tag (conversions h) cap_s cap_w sta_s sta_w,
             row_cap_s = or_unknown cap_s, row_sta_s = or_unknown sta_s,
             row_cap_w = or_unknown cap_w, row_sta_w = or_unknown sta_w\<rparr>,
           g @ '' <- '' @ join_sp (rev ?chain) @ '' | Root Port '' @ key @ '' -> - [MISS]'')"
    by (simp add: gpu_row_def Let_def assms(2,3) m l unresolved_labels inner_slot_no_group)
  show "row_slot_name (the_row h dmi_desig g) = ''ERROR (_PCIE_2)''"
    "row_location (the_row h dmi_desig g) = ''ERROR-ERROR-ERROR''"
    by (simp_all add: the_row_def row)
  show "report_line h dmi_desig g =
           g @ '' <- '' @ join_sp (rev ?chain) @ '' | Root Port '' @ key @ '' -> - [MISS]''"
    by (simp add: report_line_def n row)
qed

subsection \<open>Claims on the run\<close>

text \<open>A host for evaluation: the listing and the slot table of the examples above; the GPU
  \<^verbatim>\<open>17:00.0\<close> sits behind the root port \<^verbatim>\<open>0000:16:01.0\<close>, the GPU \<^verbatim>\<open>65:00.0\<close> has no
  bridge above it; every GPU reports the capability x16 and the width x8.  \<open>idle_host\<close> is
  the same machine with all links at full width and half speed, \<open>bare_host\<close> the same
  machine with an empty slot table.\<close>

definition example_realpath :: "string \<Rightarrow> string" where
  "example_realpath p =
     (if p = ''/sys/bus/pci/devices/0000:17:00.0''
      then ''/sys/devices/pci0000:16/0000:16:01.0/0000:17:00.0''
      else if p = ''/sys/bus/pci/devices/0000:65:00.0''
      then ''/sys/devices/pci0000:64/0000:65:00.0''
      else p)"

definition example_host :: "rat host" where
  "example_host =
     \<lparr>conversions = decimal_builtins, set_order = remdups,
      have_lspci = True, lspci_out1 = [], lspci_out2 = example_listing,
      have_dmidecode = True, dmidecode_out = example_slot_table,
      realpath = example_realpath,
      get_link_fields = (\<lambda>g. (''16.0'', ''16'', ''16.0'', ''8'')),
      get_gpu_short_name = (\<lambda>g. ''NVIDIA [10de:2204]'')\<rparr>"

definition idle_host :: "rat host" where
  "idle_host = example_host\<lparr>get_link_fields := (\<lambda>g. (''16.0'', ''16'', ''8.0'', ''16''))\<rparr>"

definition bare_host :: "rat host" where
  "bare_host = example_host\<lparr>dmidecode_out := []\<rparr>"

text \<open>
  C4.  The test fails exactly when a GPU of the pass/fail set has the verdict DOWNGRADED:
  nothing else in the run raises.  When every GPU of the pass/fail set has the verdict OK
  or IDLE the test does not fail, and when a GPU was discovered at all it passes (with no
  GPU discovered the test is skipped).
\<close>

theorem run_fails_iff_downgraded:
  assumes "\<forall>xs. set (set_order h xs) = set xs"
  shows "(failed (test_gpu_pcie_topology_and_links h) \<longleftrightarrow>
           (\<exists>g\<in>set (pass_fail_set h (discovered h)). verdict_of h g = ''DOWNGRADED'')) \<and>
         ((\<forall>g\<in>set (pass_fail_set h (discovered h)).
              verdict_of h g = ''OK'' \<or> verdict_of h g = ''IDLE'') \<longrightarrow>
            \<not> failed (test_gpu_pcie_topology_and_links h) \<and>
            (discovered h \<noteq> [] \<longrightarrow> (\<exists>st. test_gpu_pcie_topology_and_links h = Inr st)))"
proof (intro conjI impI)
  show f: "failed (test_gpu_pcie_topology_and_links h) \<longleftrightarrow>
           (\<exists>g\<in>set (pass_fail_set h (discovered h)). verdict_of h g = ''DOWNGRADED'')"
    by (rule failed_iff [OF assms])
  assume ok: "\<forall>g\<in>set (pass_fail_set h (discovered h)).
              verdict_of h g = ''OK'' \<or> verdict_of h g = ''IDLE''"
  have none: "\<not> (\<exists>g\<in>set (pass_fail_set h (discovered h)). verdict_of h g = ''DOWNGRADED'')"
  proof
    assume "\<exists>g\<in>set (pass_fail_set h (discovered h)). verdict_of h g = ''DOWNGRADED''"
    then obtain g where "g \<in> set (pass_fail_set h (discovered h))"
      "verdict_of h g = ''DOWNGRADED''" by blast
    with ok show False by auto
  qed
  with f show nf: "\<not> failed (test_gpu_pcie_topology_and_links h)" by simp
  assume ne: "discovered h \<noteq> []"
  from test_outcome [OF assms ne] obtain st
    where st: "gpu_loop h (catalog h) (discovered h) run_init = Inr st"
      and t: "test_gpu_pcie_topology_and_links h =
        (if downgraded st \<noteq> [] then Inl (AssertionError (downgraded st)) else Inr st)"
    by blast
  have "downgraded st = []"
    using none by (simp only: loop_downgraded(1) [OF st] no_downgraded_iff [symmetric]) simp
  with t show "\<exists>st. test_gpu_pcie_topology_and_links h = Inr st" by simp
qed

theorem run_fails_iff_downgraded_witness:
  "failed (test_gpu_pcie_topology_and_links example_host) \<and>
   (\<exists>g. g \<in> set (pass_fail_set example_host (discovered example_host)) \<and>
        verdict_of example_host g = ''DOWNGRADED'') \<and>
   \<not> failed (test_gpu_pcie_topology_and_links idle_host) \<and>
   (\<exists>st. test_gpu_pcie_topology_and_links idle_host = Inr st)"
proof -
  have o1: "\<forall>xs. set (set_order example_host xs) = set xs"
    by (simp add: example_host_def)
  have o2: "\<forall>xs. set (set_order idle_host xs) = set xs"
    by (simp add: idle_host_def example_host_def)
  have d1: "discovered example_host = [''17:00.0'', ''65:00.0'']" by code_simp
  have p1: "pass_fail_set example_host [''17:00.0'', ''65:00.0''] = [''17:00.0'']"
    by code_simp
  have v1: "verdict_of example_host ''17:00.0'' = ''DOWNGRADED''" by code_simp
  have d2: "discovered idle_host = [''17:00.0'', ''65:00.0'']" by code_simp
  have p2: "pass_fail_set idle_host [''17:00.0'', ''65:00.0''] = [''17:00.0'']" by code_simp
  have v2: "verdict_of idle_host ''17:00.0'' = ''IDLE''" by code_simp
  have x: "\<exists>g\<in>set (pass_fail_set example_host (discovered example_host)).
      verdict_of example_host g = ''DOWNGRADED''"
    by (simp add: d1 p1 v1)
  from run_fails_iff_downgraded [OF o1, THEN conjunct1] x
  have f: "failed (test_gpu_pcie_topology_and_links example_host)" by blast
  have a2: "\<forall>g\<in>set (pass_fail_set idle_host (discovered idle_host)).
      verdict_of idle_host g = ''OK'' \<or> verdict_of idle_host g = ''IDLE''"
    by (simp add: d2 p2 v2)
  have ne: "discovered idle_host \<noteq> []" by (simp add: d2)
  from run_fails_iff_downgraded [OF o2, THEN conjunct2, THEN mp, OF a2] ne
  have i: "\<not> failed (test_gpu_pcie_topology_and_links idle_host)"
    "\<exists>st. test_gpu_pcie_topology_and_links idle_host = Inr st"
    by blast+
  from x f i show ?thesis by blast
qed

text \<open>
  C6.  A discovered GPU whose chain has fewer than two addresses is not in the pass/fail
  set, gets no row and is never in the list of downgraded GPUs; the loop prints that no
  bridge was found for it and goes on: it ends without raising, the test reaches its
  final assertion, and every discovered GPU with a chain of two addresses or more has its
  row with its verdict.
\<close>

theorem incomplete_chain_isolated:
  assumes "\<forall>xs. set (set_order h xs) = set xs"
    and "g \<in> set (discovered h)"
    and "length (get_chain_for_device h g) < 2"
  shows "\<exists>st. gpu_loop h (catalog h) (discovered h) run_init = Inr st \<and>
           (test_gpu_pcie_topology_and_links h = Inr st \<or>
            test_gpu_pcie_topology_and_links h = Inl (AssertionError (downgraded st))) \<and>
           g \<notin> set (pass_fail_set h (discovered h)) \<and>
           g \<notin> row_bdf ` set (rows st) \<and> g \<notin> set (downgraded st) \<and>
           g @ '' | (no bridges found)'' \<in> set (printed st) \<and>
           (\<forall>g'\<in>set (discovered h). 2 \<le> length (get_chain_for_device h g') \<longrightarrow>
              (\<exists>r\<in>set (rows st). row_bdf r = g' \<and> row_status r = verdict_of h g'))"
proof -
  from assms(2) have ne: "discovered h \<noteq> []" by auto
  from test_outcome [OF assms(1) ne] obtain st
    where st: "gpu_loop h (catalog h) (discovered h) run_init = Inr st"
      and t: "test_gpu_pcie_topology_and_links h =
        (if downgraded st \<noteq> [] then Inl (AssertionError (downgraded st)) else Inr st)"
    by blast
  note r = loop_downgraded [OF st]
  have a: "test_gpu_pcie_topology_and_links h = Inr st \<or>
      test_gpu_pcie_topology_and_links h = Inl (AssertionError (downgraded st))"
    by (simp add: t)
  have b: "g \<notin> set (pass_fail_set h (discovered h))"
    using assms(3) by (simp add: pass_fail_set_def)
  have c: "g \<notin> row_bdf ` set (rows st)"
  proof
    assume "g \<in> row_bdf ` set (rows st)"
    then obtain g' where g': "g' \<in> set (pass_fail_set h (discovered h))"
      "g = row_bdf (the_row h (catalog h) g')"
      by (auto simp: r(2))
    from g'(1) have "2 \<le> length (get_chain_for_device h g')" by (simp add: pass_fail_set_def)
    with g'(2) have "g = g'" by (simp add: the_row_fields)
    with g'(1) b show False by simp
  qed
  have d: "g \<notin> set (downgraded st)" using b by (simp add: r(1))
  have e: "g @ '' | (no bridges found)'' \<in> set (printed st)"
  proof -
    have "report_line h (catalog h) g = g @ '' | (no bridges found)''"
      using assms(3) by (simp add: report_line_def)
    with assms(2) show ?thesis by (force simp: r(3))
  qed
  have f: "\<forall>g'\<in>set (discovered h). 2 \<le> length (get_chain_for_device h g') \<longrightarrow>
              (\<exists>r\<in>set (rows st). row_bdf r = g' \<and> row_status r = verdict_of h g')"
  proof (intro ballI impI)
    fix g' assume g': "g' \<in> set (discovered h)" "2 \<le> length (get_chain_for_device h g')"
    then have "the_row h (catalog h) g' \<in> set (rows st)"
      by (simp add: r(2) pass_fail_set_def)
    with the_row_fields [OF g'(2)]
    show "\<exists>r\<in>set (rows st). row_bdf r = g' \<and> row_status r = verdict_of h g'" by blast
  qed
  from st a b c d e f show ?thesis by blast
qed

theorem incomplete_chain_isolated_witness:
  "''65:00.0'' \<in> set (discovered example_host) \<and>
   length (get_chain_for_device example_host ''65:00.0'') < 2 \<and>
   (\<exists>st. gpu_loop example_host (catalog example_host) (discovered example_host) run_init
           = Inr st \<and>
      ''65:00.0'' \<notin> row_bdf ` set (rows st) \<and> ''65:00.0'' \<notin> set (downgraded st) \<and>
      ''65:00.0 | (no bridges found)'' \<in> set (printed st) \<and>
      (\<exists>r\<in>set (rows st). row_bdf r = ''17:00.0'' \<and> row_status r = ''DOWNGRADED''))"
proof -
  have o1: "\<forall>xs. set (set_order example_host xs) = set xs"
    by (simp add: example_host_def)
  have d1: "discovered example_host = [''17:00.0'', ''65:00.0'']" by code_simp
  have c1: "get_chain_for_device example_host ''65:00.0'' = [''0000:65:00.0'']" by code_simp
  have c2: "get_chain_for_device example_host ''17:00.0'' =
      [''0000:16:01.0'', ''0000:17:00.0'']" by code_simp
  have v1: "verdict_of example_host ''17:00.0'' = ''DOWNGRADED''" by code_simp
  have h1: "''65:00.0'' \<in> set (discovered example_host)" by (simp add: d1)
  have h2: "length (get_chain_for_device example_host ''65:00.0'') < 2" by (simp add: c1)
  from incomplete_chain_isolated [OF o1 h1 h2] obtain st where
    st: "gpu_loop example_host (catalog example_host) (discovered example_host) run_init = Inr st"
      "''65:00.0'' \<notin> row_bdf ` set (rows st)" "''65:00.0'' \<notin> set (downgraded st)"
      "''65:00.0'' @ '' | (no bridges found)'' \<in> set (printed st)"
      "\<forall>g'\<in>set (discovered example_host).
          2 \<le> length (get_chain_for_device example_host g') \<longrightarrow>
          (\<exists>r\<in>set (rows st). row_bdf r = g' \<and> row_status r = verdict_of example_host g')"
    by blast
  have "''17:00.0'' \<in> set (discovered example_host)"
    "2 \<le> length (get_chain_for_device example_host ''17:00.0'')"
    by (simp_all add: d1 c2)
  with st(5) v1 have r: "\<exists>r\<in>set (rows st). row_bdf r = ''17:00.0'' \<and>
      row_status r = ''DOWNGRADED''"
    by fastforce
  from st(4) have p: "''65:00.0 | (no bridges found)'' \<in> set (printed st)" by simp
  from h1 h2 st(1-3) p r show ?thesis by blast
qed

text \<open>
  C8.  A discovered GPU with a chain of two addresses or more whose root port's key has no
  record in the catalog stays in the pass/fail set and gets a row with its link verdict;
  only the slot label and the location of the row are the unresolved ones, and its chain
  line says \<^verbatim>\<open>- [MISS]\<close>.  It is in the list of downgraded GPUs exactly when its verdict
  is DOWNGRADED, and the test fails exactly when some GPU of the pass/fail set has that
  verdict: the missing record fails nothing.
\<close>

theorem unmapped_slot_keeps_verdict:
  assumes "\<forall>xs. set (set_order h xs) = set xs"
    and "g \<in> set (discovered h)"
    and "2 \<le> length (get_chain_for_device h g)"
    and "dmi_key_from_bdf (get_chain_for_device h g ! 0) = Inr key"
    and "catalog h key = None"
  shows "\<exists>st. gpu_loop h (catalog h) (discovered h) run_init = Inr st \<and>
           g \<in> set (pass_fail_set h (discovered h)) \<and>
           (\<exists>r\<in>set (rows st). row_bdf r = g \<and> row_status r = verdict_of h g \<and>
              row_slot_name r = ''ERROR (_PCIE_2)'' \<and>
              row_location r = ''ERROR-ERROR-ERROR'') \<and>
           g @ '' <- '' @ join_sp (rev (get_chain_for_device h g)) @ '' | Root Port '' @ key @
             '' -> - [MISS]'' \<in> set (printed st) \<and>
           (g \<in> set (downgraded st) \<longleftrightarrow> verdict_of h g = ''DOWNGRADED'') \<and>
           (failed (test_gpu_pcie_topology_and_links h) \<longleftrightarrow>
              (\<exists>g'\<in>set (pass_fail_set h (discovered h)). verdict_of h g' = ''DOWNGRADED''))"
proof -
  from assms(2) have ne: "discovered h \<noteq> []" by auto
  from test_outcome [OF assms(1) ne] obtain st
    where st: "gpu_loop h (catalog h) (discovered h) run_init = Inr st"
    by blast
  note r = loop_downgraded [OF st]
  note u = gpu_row_unmapped [of h g key "catalog h", OF assms(3,4,5)]
  have a: "g \<in> set (pass_fail_set h (discovered h))"
    using assms(2,3) by (simp add: pass_fail_set_def)
  then have "the_row h (catalog h) g \<in> set (rows st)" by (simp add: r(2))
  with the_row_fields [OF assms(3), of "catalog h"] u(1,2)
  have b: "\<exists>r\<in>set (rows st). row_bdf r = g \<and> row_status r = verdict_of h g \<and>
              row_slot_name r = ''ERROR (_PCIE_2)'' \<and>
              row_location r = ''ERROR-ERROR-ERROR''"
    by blast
  have "report_line h (catalog h) g \<in> set (printed st)"
    using assms(2) by (simp add: r(3))
  then have c: "g @ '' <- '' @ join_sp (rev (get_chain_for_device h g)) @ '' | Root Port '' @
      key @ '' -> - [MISS]'' \<in> set (printed st)"
    by (simp only: u(3))
  have d: "g \<in> set (downgraded st) \<longleftrightarrow> verdict_of h g = ''DOWNGRADED''"
    using a by (simp add: r(1))
  note e = failed_iff [OF assms(1)]
  from st a b c d e show ?thesis by blast
qed

theorem unmapped_slot_keeps_verdict_witness:
  "catalog bare_host ''0016:01:00.0'' = None \<and>
   (\<exists>st. gpu_loop bare_host (catalog bare_host) (discovered bare_host) run_init = Inr st \<and>
      (\<exists>r\<in>set (rows st). row_bdf r = ''17:00.0'' \<and> row_status r = ''DOWNGRADED'' \<and>
         row_slot_name r = ''ERROR (_PCIE_2)'' \<and> row_location r = ''ERROR-ERROR-ERROR'') \<and>
      ''17:00.0 <- 0000:17:00.0 0000:16:01.0 | Root Port 0016:01:00.0 -> - [MISS]''
        \<in> set (printed st) \<and>
      ''17:00.0'' \<in> set (downgraded st))"
proof -
  have o: "\<forall>xs. set (set_order bare_host xs) = set xs"
    by (simp add: bare_host_def example_host_def)
  have d: "discovered bare_host = [''17:00.0'', ''65:00.0'']" by code_simp
  have c: "get_chain_for_device bare_host ''17:00.0'' = [''0000:16:01.0'', ''0000:17:00.0'']"
    by code_simp
  have k: "dmi_key_from_bdf ''0000:16:01.0'' = Inr ''0016:01:00.0''" by code_simp
  have n: "catalog bare_host ''0016:01:00.0'' = None" by code_simp
  have v: "verdict_of bare_host ''17:00.0'' = ''DOWNGRADED''" by code_simp
  have h2: "''17:00.0'' \<in> set (discovered bare_host)" by (simp add: d)
  have h3: "2 \<le> length (get_chain_for_device bare_host ''17:00.0'')" by (simp add: c)
  have h4: "dmi_key_from_bdf (get_chain_for_device bare_host ''17:00.0'' ! 0) =
      Inr ''0016:01:00.0''"
    by (simp add: c k)
  from unmapped_slot_keeps_verdict [OF o h2 h3 h4 n] obtain st where
    st: "gpu_loop bare_host (catalog bare_host) (discovered bare_host) run_init = Inr st"
      "\<exists>r\<in>set (rows st). row_bdf r = ''17:00.0'' \<and>
         row_status r = verdict_of bare_host ''17:00.0'' \<and>
         row_slot_name r = ''ERROR (_PCIE_2)'' \<and> row_location r = ''ERROR-ERROR-ERROR''"
      "''17:00.0'' @ '' <- '' @ join_sp (rev (get_chain_for_device bare_host ''17:00.0'')) @
         '' | Root Port '' @ ''0016:01:00.0'' @ '' -> - [MISS]'' \<in> set (printed st)"
      "''17:00.0'' \<in> set (downgraded st) \<longleftrightarrow>
         verdict_of bare_host ''17:00.0'' = ''DOWNGRADED''"
    by blast
  from st(2) v have r: "\<exists>r\<in>set (rows st). row_bdf r = ''17:00.0'' \<and>
      row_status r = ''DOWNGRADED'' \<and>
      row_slot_name r = ''ERROR (_PCIE_2)'' \<and> row_location r = ''ERROR-ERROR-ERROR''"
    by simp
  from st(3) have p: "''17:00.0 <- 0000:17:00.0 0000:16:01.0 | Root Port 0016:01:00.0 -> - [MISS]''
        \<in> set (printed st)"
    by (simp add: c)
  from st(4) v have g: "''17:00.0'' \<in> set (downgraded st)" by simp
  from n st(1) r p g show ?thesis by blast
qed

end
